theory Spec2Isabelle
  imports Complex_Main "HOL-Library.Word"
begin

section \<open>JavaScript values and errors\<close>

text \<open>
  Exceptions and promise rejections are values. \<open>Error m\<close> is \<^verbatim>\<open>new Error(m)\<close>,
  \<open>TypeError\<close> and \<open>SyntaxError\<close> are the language's own errors, and
  \<open>DOMException n\<close> is a platform exception with name \<open>n\<close>. Strings are
  \<open>string\<close>: a JavaScript string whose code units all lie below 256.
\<close>

datatype js_error =
    Error string
  | TypeError string
  | SyntaxError string
  | DOMException string

section \<open>static/push.js: decoding the application server key\<close>

subsection \<open>The platform's \<^verbatim>\<open>atob\<close>\<close>

text \<open>
  \<^verbatim>\<open>atob\<close> is the forgiving-base64 decode of the platform: ASCII whitespace is
  removed; if the length is then a multiple of four, one or two trailing \<open>=\<close> are
  removed; a length that leaves remainder one, or any character outside the base64
  alphabet, is a failure (\<^verbatim>\<open>InvalidCharacterError\<close>); the remaining characters are read six
  bits at a time, and the 12 or 18 bits left at the end give one or two bytes.
\<close>

definition ascii_whitespace :: "char \<Rightarrow> bool" where
  "ascii_whitespace c \<longleftrightarrow> c \<in> {CHR 0x09, CHR 0x0A, CHR 0x0C, CHR 0x0D, CHR 0x20}"

definition base64_alphabet :: string where
  "base64_alphabet = ''ABCDEFGHIJKLMNOPQRSTUVWXYZabcdefghijklmnopqrstuvwxyz0123456789+/''"

definition is_base64_char :: "char \<Rightarrow> bool" where
  "is_base64_char c \<longleftrightarrow> c \<in> set base64_alphabet"

fun index_of :: "'a \<Rightarrow> 'a list \<Rightarrow> nat" where
  "index_of x [] = 0"
| "index_of x (y # ys) = (if x = y then 0 else Suc (index_of x ys))"

definition sextet :: "char \<Rightarrow> nat" where
  "sextet c = index_of c base64_alphabet"

definition remove_trailing_eq :: "string \<Rightarrow> string" where
  "remove_trailing_eq d = (if d \<noteq> [] \<and> last d = CHR ''='' then butlast d else d)"

definition strip_padding :: "string \<Rightarrow> string" where
  "strip_padding d =
     (if length d mod 4 = 0 then remove_trailing_eq (remove_trailing_eq d) else d)"

fun decode_sextets :: "nat list \<Rightarrow> nat list" where
  "decode_sextets (a # b # c # d # rest) =
     [a * 4 + b div 16, (b mod 16) * 16 + c div 4, (c mod 4) * 64 + d] @ decode_sextets rest"
| "decode_sextets [a, b, c] = [a * 4 + b div 16, (b mod 16) * 16 + c div 4]"
| "decode_sextets [a, b] = [a * 4 + b div 16]"
| "decode_sextets _ = []"

definition atob :: "string \<Rightarrow> js_error + string" where
  "atob s =
     (let data = strip_padding (filter (\<lambda>c. \<not> ascii_whitespace c) s)
      in if length data mod 4 = 1 then Inl (DOMException ''InvalidCharacterError'')
         else if \<not> list_all is_base64_char data then Inl (DOMException ''InvalidCharacterError'')
         else Inr (map char_of (decode_sextets (map sextet data))))"

subsection \<open>\<^verbatim>\<open>urlBase64ToUint8Array\<close>\<close>

text \<open>\<^verbatim>\<open>s.replace(/a/g, b)\<close> for single characters \<open>a\<close> and \<open>b\<close>.\<close>

definition replace_all :: "char \<Rightarrow> char \<Rightarrow> string \<Rightarrow> string" where
  "replace_all a b s = map (\<lambda>c. if c = a then b else c) s"

text \<open>
  The loop \<^verbatim>\<open>for (let i = 0; i < rawData.length; ++i) outputArray[i] = rawData.charCodeAt(i)\<close>
  over a \<^verbatim>\<open>Uint8Array\<close>, whose cells hold a byte.
\<close>

function fill_array :: "string \<Rightarrow> nat \<Rightarrow> 8 word list \<Rightarrow> 8 word list" where
  "fill_array rawData i outputArray =
     (if i < length rawData
      then fill_array rawData (i + 1) (outputArray[i := of_char (rawData ! i)])
      else outputArray)"
  by pat_completeness auto
termination
  by (relation "measure (\<lambda>(rawData, i, outputArray). length rawData - i)") auto

definition urlBase64ToUint8Array :: "string \<Rightarrow> js_error + 8 word list" where
  "urlBase64ToUint8Array base64String =
     (let padding = replicate ((4 - length base64String mod 4) mod 4) (CHR ''='');
          base64 = replace_all (CHR ''_'') (CHR ''/'')
                     (replace_all (CHR ''-'') (CHR ''+'') (base64String @ padding))
      in case atob base64 of
           Inl e \<Rightarrow> Inl e
         | Inr rawData \<Rightarrow> Inr (fill_array rawData 0 (replicate (length rawData) 0)))"

section \<open>Values read from JSON\<close>

text \<open>
  The values \<^verbatim>\<open>JSON.parse\<close> can produce, and \<^verbatim>\<open>undefined\<close> for a property that is
  not there. A number is a real (every finite double is one); the code only tests numbers
  for truth.
\<close>

datatype js_value =
    JUndefined
  | JNull
  | JBool bool
  | JNum real
  | JStr string
  | JArr "js_value list"
  | JObj "(string \<times> js_value) list"

text \<open>The truth test of \<^verbatim>\<open>if\<close>, \<^verbatim>\<open>||\<close>, \<^verbatim>\<open>&&\<close> and \<^verbatim>\<open>?:\<close>.\<close>

fun truthy :: "js_value \<Rightarrow> bool" where
  "truthy JUndefined = False"
| "truthy JNull = False"
| "truthy (JBool b) = b"
| "truthy (JNum n) = (n \<noteq> 0)"
| "truthy (JStr s) = (s \<noteq> [])"
| "truthy (JArr xs) = True"
| "truthy (JObj kvs) = True"

text \<open>
  Property access \<^verbatim>\<open>v.k\<close>. On \<^verbatim>\<open>null\<close> and \<^verbatim>\<open>undefined\<close> it throws a
  \<^verbatim>\<open>TypeError\<close>; on an object it gives the stored value or \<^verbatim>\<open>undefined\<close>; the
  keys the workers read (\<^verbatim>\<open>title\<close>, \<^verbatim>\<open>body\<close>, \<^verbatim>\<open>data\<close>, \<^verbatim>\<open>url\<close>) are not
  properties of any string, number, boolean or array.
\<close>

fun get_prop :: "js_value \<Rightarrow> string \<Rightarrow> js_error + js_value" where
  "get_prop JUndefined k = Inl (TypeError ''Cannot read properties of undefined'')"
| "get_prop JNull k = Inl (TypeError ''Cannot read properties of null'')"
| "get_prop (JObj kvs) k = Inr (case map_of kvs k of Some v \<Rightarrow> v | None \<Rightarrow> JUndefined)"
| "get_prop v k = Inr JUndefined"

text \<open>\<^verbatim>\<open>a || b\<close> on values already computed.\<close>

definition js_or :: "js_value \<Rightarrow> js_value \<Rightarrow> js_value" where
  "js_or a b = (if truthy a then a else b)"

section \<open>static/push.js: the subscription manager\<close>

subsection \<open>The platform\<close>

record push_subscription =
  endpoint :: string
  p256dh :: string
  auth :: string

text \<open>What \<^verbatim>\<open>JSON.stringify\<close> serialises for a subscription.\<close>

definition toJSON :: "push_subscription \<Rightarrow> js_value" where
  "toJSON sub =
     JObj [(''endpoint'', JStr (endpoint sub)),
           (''keys'', JObj [(''p256dh'', JStr (p256dh sub)), (''auth'', JStr (auth sub))])]"

text \<open>A JSON text is identified with the value it denotes.\<close>

datatype json_text = JSON_text js_value

definition JSON_stringify :: "push_subscription \<Rightarrow> json_text" where
  "JSON_stringify sub = JSON_text (toJSON sub)"

record request =
  req_url :: string
  req_method :: string
  req_headers :: "(string \<times> string) list"
  req_body :: json_text

record response =
  status :: nat
  body_text :: string
  body_json :: "js_error + js_value"

text \<open>\<^verbatim>\<open>res.ok\<close>: the status is in the range 200 to 299.\<close>

definition ok :: "response \<Rightarrow> bool" where
  "ok res \<longleftrightarrow> 200 \<le> status res \<and> status res \<le> 299"

datatype registration = ServiceWorkerRegistration string

datatype platform_call =
    Register string
  | RequestPermission
  | GetSubscription
  | Subscribe bool "8 word list"
  | Fetch request
  | Unsubscribe push_subscription

text \<open>
  What the platform keeps between calls: whether the worker script is registered, the
  subscription of that registration, and the calls made so far, oldest first.
\<close>

record platform_state =
  registered :: bool
  subscription :: "push_subscription option"
  calls :: "platform_call list"

text \<open>
  What the outside answers during one run: whether \<^verbatim>\<open>navigator\<close> has
  \<^verbatim>\<open>serviceWorker\<close>, the user's answer to the permission prompt, the server's
  response, and for each platform promise whether it rejects.
\<close>

record environment =
  serviceWorker_in_navigator :: bool
  register_error :: "js_error option"
  requestPermission_result :: "js_error + string"
  getSubscription_error :: "js_error option"
  subscribe_result :: "8 word list \<Rightarrow> js_error + push_subscription"
  fetch_result :: "request \<Rightarrow> js_error + response"
  unsubscribe_error :: "js_error option"

text \<open>An asynchronous computation: it settles with an error or a value, and a new state.\<close>

type_synonym 'a async = "platform_state \<Rightarrow> (js_error + 'a) \<times> platform_state"

definition resolve :: "'a \<Rightarrow> 'a async" where
  "resolve x st = (Inr x, st)"

definition throw :: "js_error \<Rightarrow> 'a async" where
  "throw e st = (Inl e, st)"

definition await :: "'a async \<Rightarrow> ('a \<Rightarrow> 'b async) \<Rightarrow> 'b async" where
  "await m k st = (case m st of (Inl e, st') \<Rightarrow> (Inl e, st') | (Inr x, st') \<Rightarrow> k x st')"

definition logged :: "platform_call \<Rightarrow> platform_state \<Rightarrow> platform_state" where
  "logged c st = st\<lparr>calls := calls st @ [c]\<rparr>"

definition serviceWorker_register :: "environment \<Rightarrow> string \<Rightarrow> registration option async" where
  "serviceWorker_register env script st =
     (case register_error env of
        Some e \<Rightarrow> (Inl e, logged (Register script) st)
      | None \<Rightarrow> (Inr (Some (ServiceWorkerRegistration script)),
                  (logged (Register script) st)\<lparr>registered := True\<rparr>))"

definition Notification_requestPermission :: "environment \<Rightarrow> string async" where
  "Notification_requestPermission env st =
     (requestPermission_result env, logged RequestPermission st)"

definition pushManager_getSubscription :: "environment \<Rightarrow> push_subscription option async" where
  "pushManager_getSubscription env st =
     (case getSubscription_error env of
        Some e \<Rightarrow> (Inl e, logged GetSubscription st)
      | None \<Rightarrow> (Inr (subscription st), logged GetSubscription st))"

text \<open>
  \<^verbatim>\<open>pushManager.subscribe\<close>: a registration that has a subscription keeps it; otherwise
  the platform creates the one the push service issues, or rejects.
\<close>

definition pushManager_subscribe ::
    "environment \<Rightarrow> bool \<Rightarrow> 8 word list \<Rightarrow> push_subscription async" where
  "pushManager_subscribe env userVisibleOnly applicationServerKey st =
     (let st' = logged (Subscribe userVisibleOnly applicationServerKey) st
      in case subscription st of
           Some existing \<Rightarrow> (Inr existing, st')
         | None \<Rightarrow>
            (case subscribe_result env applicationServerKey of
               Inl e \<Rightarrow> (Inl e, st')
             | Inr sub \<Rightarrow> (Inr sub, st'\<lparr>subscription := Some sub\<rparr>)))"

definition sub_unsubscribe :: "environment \<Rightarrow> push_subscription \<Rightarrow> bool async" where
  "sub_unsubscribe env sub st =
     (case unsubscribe_error env of
        Some e \<Rightarrow> (Inl e, logged (Unsubscribe sub) st)
      | None \<Rightarrow> (Inr True, (logged (Unsubscribe sub) st)\<lparr>subscription := None\<rparr>))"

definition fetch :: "environment \<Rightarrow> request \<Rightarrow> response async" where
  "fetch env req st = (fetch_result env req, logged (Fetch req) st)"

subsection \<open>The functions of push.js\<close>

definition registerSW :: "environment \<Rightarrow> registration option async" where
  "registerSW env =
     (if \<not> serviceWorker_in_navigator env then resolve None
      else serviceWorker_register env ''/static/sw.js'')"

definition subscribePush :: "environment \<Rightarrow> string \<Rightarrow> push_subscription async" where
  "subscribePush env vapidPublicKey =
     await (registerSW env) (\<lambda>reg.
       if reg = None then throw (Error ''Service Worker not supported'')
       else await (Notification_requestPermission env) (\<lambda>perm.
         if perm \<noteq> ''granted'' then throw (Error ''Notifications permission not granted'')
         else await (pushManager_getSubscription env) (\<lambda>existing.
           case existing of
             Some sub \<Rightarrow> resolve sub
           | None \<Rightarrow>
              (case urlBase64ToUint8Array vapidPublicKey of
                 Inl e \<Rightarrow> throw e
               | Inr key \<Rightarrow> pushManager_subscribe env True key))))"

definition postJSON :: "environment \<Rightarrow> string \<Rightarrow> push_subscription \<Rightarrow> js_value async" where
  "postJSON env url data =
     await (fetch env \<lparr>req_url = url, req_method = ''POST'',
                       req_headers = [(''Content-Type'', ''application/json'')],
                       req_body = JSON_stringify data\<rparr>) (\<lambda>res.
       if \<not> ok res
       then (let t = body_text res in throw (Error (if t \<noteq> [] then t else ''Request failed'')))
       else resolve (case body_json res of Inl e \<Rightarrow> JObj [] | Inr v \<Rightarrow> v))"

definition enable :: "environment \<Rightarrow> string \<Rightarrow> bool async" where
  "enable env vapidPublicKey =
     await (subscribePush env vapidPublicKey) (\<lambda>sub.
       await (postJSON env ''/push/subscribe'' sub) (\<lambda>_. resolve True))"

definition disable :: "environment \<Rightarrow> bool async" where
  "disable env =
     await (registerSW env) (\<lambda>reg.
       if reg = None then resolve True
       else await (pushManager_getSubscription env) (\<lambda>sub.
         case sub of
           Some s \<Rightarrow>
             await (postJSON env ''/push/unsubscribe'' s) (\<lambda>_.
               await (sub_unsubscribe env s) (\<lambda>_. resolve True))
         | None \<Rightarrow> resolve True))"

section \<open>The service worker\<close>

subsection \<open>The push event\<close>

text \<open>
  \<^verbatim>\<open>event.data\<close> is \<^verbatim>\<open>null\<close> when the message has no payload. Otherwise it has the
  payload's text and what the platform's JSON parser makes of it: a value, or a
  \<^verbatim>\<open>SyntaxError\<close>.
\<close>

record push_message_data =
  text_of :: string
  json_of :: "js_error + js_value"

record push_event =
  event_data :: "push_message_data option"

text \<open>The arguments of \<^verbatim>\<open>showNotification(title, options)\<close>.\<close>

record notification =
  n_title :: js_value
  n_body :: js_value
  n_icon :: string
  n_badge :: string
  n_data :: js_value

text \<open>\<^verbatim>\<open>event.data.json()\<close>: reading \<^verbatim>\<open>json\<close> from \<^verbatim>\<open>null\<close> is a \<^verbatim>\<open>TypeError\<close>.\<close>

definition event_data_json :: "push_event \<Rightarrow> js_error + js_value" where
  "event_data_json event =
     (case event_data event of
        None \<Rightarrow> Inl (TypeError ''Cannot read properties of null'')
      | Some d \<Rightarrow> json_of d)"

definition on_push :: "push_event \<Rightarrow> js_error + notification" where
  "on_push event =
     (let data = (case event_data_json event of
                    Inr v \<Rightarrow> v
                  | Inl e \<Rightarrow>
                      JObj [(''title'', JStr ''M&N Driver Portal''),
                            (''body'', (case event_data event of
                                          Some d \<Rightarrow> JStr (text_of d)
                                        | None \<Rightarrow> JStr ''''))])
      in case get_prop data ''title'' of
           Inl e \<Rightarrow> Inl e
         | Inr t \<Rightarrow>
            (let title = js_or t (JStr ''M&N Driver Portal'')
             in case get_prop data ''body'' of
                  Inl e \<Rightarrow> Inl e
                | Inr b \<Rightarrow>
                   (case get_prop data ''data'' of
                      Inl e \<Rightarrow> Inl e
                    | Inr d \<Rightarrow>
                        Inr \<lparr>n_title = title, n_body = js_or b (JStr ''''),
                             n_icon = ''/static/logo.png'', n_badge = ''/static/logo.png'',
                             n_data = js_or d (JObj [])\<rparr>)))"

subsection \<open>The notificationclick event\<close>

datatype client_type = Window | Worker | SharedWorker

record client =
  client_url :: string
  client_type :: client_type
  controlled :: bool

text \<open>
  \<^verbatim>\<open>clients.matchAll({type, includeUncontrolled})\<close> lists the clients of the worker's
  origin that have the type asked for; those the worker does not control are listed only
  when \<^verbatim>\<open>includeUncontrolled\<close> is set.
\<close>

definition matchAll :: "client list \<Rightarrow> client_type \<Rightarrow> bool \<Rightarrow> client list" where
  "matchAll open_clients type includeUncontrolled =
     filter (\<lambda>c. client_type c = type \<and> (includeUncontrolled \<or> controlled c)) open_clients"

text \<open>\<^verbatim>\<open>"focus" in client\<close>: only a window client has the method.\<close>

definition has_focus :: "client \<Rightarrow> bool" where
  "has_focus c \<longleftrightarrow> client_type c = Window"

text \<open>\<^verbatim>\<open>s.includes(u)\<close> for strings: \<open>u\<close> occurs in \<open>s\<close> at some position.\<close>

fun String_includes :: "string \<Rightarrow> string \<Rightarrow> bool" where
  "String_includes [] u = (u = [])"
| "String_includes (c # cs) u = (take (length u) (c # cs) = u \<or> String_includes cs u)"

datatype worker_effect =
    CloseNotification
  | Focus client
  | OpenWindow js_value

text \<open>
  The language's conversion of a value to a string, which \<^verbatim>\<open>includes\<close> applies to
  its argument. It is the value itself for a string, a fixed word for \<^verbatim>\<open>undefined\<close>,
  \<^verbatim>\<open>null\<close>, \<^verbatim>\<open>true\<close> and \<^verbatim>\<open>false\<close>, and the platform's decimal text for a
  number (the parameter \<open>number_text\<close>). An array is converted by \<^verbatim>\<open>join\<close>: its
  elements converted in turn, \<^verbatim>\<open>null\<close> and \<^verbatim>\<open>undefined\<close> giving the empty string,
  with commas between. An object read from JSON is converted by the \<^verbatim>\<open>toString\<close> it
  inherits, unless it has a property of its own called \<^verbatim>\<open>toString\<close>: that property
  is a JSON value and cannot be called, no \<^verbatim>\<open>valueOf\<close> gives a primitive either,
  and the conversion throws a \<^verbatim>\<open>TypeError\<close>.
\<close>

fun ToString :: "(real \<Rightarrow> string) \<Rightarrow> js_value \<Rightarrow> js_error + string"
  and Array_join :: "(real \<Rightarrow> string) \<Rightarrow> js_value list \<Rightarrow> js_error + string" where
  "ToString number_text JUndefined = Inr ''undefined''"
| "ToString number_text JNull = Inr ''null''"
| "ToString number_text (JBool b) = Inr (if b then ''true'' else ''false'')"
| "ToString number_text (JNum n) = Inr (number_text n)"
| "ToString number_text (JStr s) = Inr s"
| "ToString number_text (JArr xs) = Array_join number_text xs"
| "ToString number_text (JObj kvs) =
     (case map_of kvs ''toString'' of
        Some v \<Rightarrow> Inl (TypeError ''Cannot convert object to primitive value'')
      | None \<Rightarrow> Inr ''[object Object]'')"
| "Array_join number_text [] = Inr ''''"
| "Array_join number_text (x # xs) =
     (case (case x of
              JUndefined \<Rightarrow> Inr ''''
            | JNull \<Rightarrow> Inr ''''
            | _ \<Rightarrow> ToString number_text x) of
        Inl e \<Rightarrow> Inl e
      | Inr s \<Rightarrow>
          if xs = [] then Inr s
          else (case Array_join number_text xs of
                  Inl e \<Rightarrow> Inl e
                | Inr t \<Rightarrow> Inr (s @ '','' @ t)))"

text \<open>
  The \<^verbatim>\<open>for (const client of clientList)\<close> loop with its early return. Each
  \<^verbatim>\<open>client.url.includes(url)\<close> converts \<open>url\<close> first, and a conversion that throws
  ends the loop with that error.
\<close>

fun first_match ::
    "(real \<Rightarrow> string) \<Rightarrow> js_value \<Rightarrow> client list \<Rightarrow> js_error + client option" where
  "first_match number_text url [] = Inr None"
| "first_match number_text url (c # clientList) =
     (case ToString number_text url of
        Inl e \<Rightarrow> Inl e
      | Inr u \<Rightarrow>
          if String_includes (client_url c) u \<and> has_focus c then Inr (Some c)
          else first_match number_text url clientList)"

text \<open>
  The target of a click:
  \<^verbatim>\<open>(data && data.url) ? data.url : "/portal"\<close>.
\<close>

definition click_url :: "js_value \<Rightarrow> js_error + js_value" where
  "click_url data =
     (case (if truthy data then get_prop data ''url'' else Inr data) of
        Inl e \<Rightarrow> Inl e
      | Inr c \<Rightarrow> if truthy c then get_prop data ''url'' else Inr (JStr ''/portal''))"

text \<open>
  The handler takes the platform's text of a number, the open clients, whether
  \<^verbatim>\<open>clients.openWindow\<close> exists, and \<^verbatim>\<open>event.notification.data\<close>. It returns what
  the worker did, in order, and the error that ended the handler or its
  \<^verbatim>\<open>then\<close> callback, if one did. The notification is closed before anything else is
  evaluated. \<^verbatim>\<open>openWindow\<close> is given \<open>url\<close> as it is.
\<close>

definition on_notificationclick ::
    "(real \<Rightarrow> string) \<Rightarrow> client list \<Rightarrow> bool \<Rightarrow> js_value
       \<Rightarrow> worker_effect list \<times> js_error option" where
  "on_notificationclick number_text open_clients has_openWindow data =
     (case click_url data of
        Inl e \<Rightarrow> ([CloseNotification], Some e)
      | Inr url \<Rightarrow>
          (case first_match number_text url (matchAll open_clients Window True) of
             Inl e \<Rightarrow> ([CloseNotification], Some e)
           | Inr (Some c) \<Rightarrow> ([CloseNotification, Focus c], None)
           | Inr None \<Rightarrow>
               (if has_openWindow then [CloseNotification, OpenWindow url]
                else [CloseNotification], None)))"

section \<open>Notions used in the statements\<close>

subsection \<open>Base64 and base64url strings\<close>

text \<open>
  Decoding a standard base64 string to bytes: the platform's decoder, then the code of
  each character.
\<close>

definition base64_decode :: "string \<Rightarrow> js_error + 8 word list" where
  "base64_decode t = (case atob t of Inl e \<Rightarrow> Inl e | Inr rawData \<Rightarrow> Inr (map of_char rawData))"

text \<open>The URL-safe form of a base64 string: \<open>-\<close> for \<open>+\<close> and \<open>_\<close> for \<open>/\<close>.\<close>

definition to_base64url :: "string \<Rightarrow> string" where
  "to_base64url t = replace_all (CHR ''/'') (CHR ''_'') (replace_all (CHR ''+'') (CHR ''-'') t)"

text \<open>The substitution \<^verbatim>\<open>urlBase64ToUint8Array\<close> makes, as one function.\<close>

definition from_url :: "string \<Rightarrow> string" where
  "from_url s = replace_all (CHR ''_'') (CHR ''/'') (replace_all (CHR ''-'') (CHR ''+'') s)"

text \<open>
  A standard base64 string with correct padding: a multiple of four characters, all
  of the alphabet, except for at most two \<open>=\<close> at the end.
\<close>

definition valid_base64 :: "string \<Rightarrow> bool" where
  "valid_base64 t =
     (let body = takeWhile (\<lambda>c. c \<noteq> CHR ''='') t;
          pad = dropWhile (\<lambda>c. c \<noteq> CHR ''='') t
      in length t mod 4 = 0 \<and> list_all is_base64_char body \<and>
         list_all (\<lambda>c. c = CHR ''='') pad \<and> length pad \<le> 2)"

definition is_base64url_char :: "char \<Rightarrow> bool" where
  "is_base64url_char c \<longleftrightarrow> is_base64_char c \<or> c = CHR ''-'' \<or> c = CHR ''_''"

text \<open>
  A well-formed key: characters of either alphabet, their number not one more than a
  multiple of four, followed by no more \<open>=\<close> than complete the last group of four.
  Every other string is malformed in its characters or in its padding.
\<close>

definition well_formed_key :: "string \<Rightarrow> bool" where
  "well_formed_key s =
     (let body = takeWhile (\<lambda>c. c \<noteq> CHR ''='') s;
          pad = dropWhile (\<lambda>c. c \<noteq> CHR ''='') s
      in list_all is_base64url_char body \<and> list_all (\<lambda>c. c = CHR ''='') pad \<and>
         length body mod 4 \<noteq> 1 \<and> length pad \<le> (4 - length body mod 4) mod 4)"

subsection \<open>Reading the log of platform calls\<close>

text \<open>The calls a run added to the log.\<close>

definition new_calls :: "platform_state \<Rightarrow> platform_state \<Rightarrow> platform_call list" where
  "new_calls st st' = drop (length (calls st)) (calls st')"

fun is_Subscribe :: "platform_call \<Rightarrow> bool" where
  "is_Subscribe (Subscribe v k) = True"
| "is_Subscribe c = False"

fun is_Unsubscribe :: "platform_call \<Rightarrow> bool" where
  "is_Unsubscribe (Unsubscribe s) = True"
| "is_Unsubscribe c = False"

text \<open>The path and body of every request among the calls, in order.\<close>

fun posted :: "platform_call list \<Rightarrow> (string \<times> json_text) list" where
  "posted [] = []"
| "posted (Fetch r # cs) = (req_url r, req_body r) # posted cs"
| "posted (c # cs) = posted cs"

text \<open>The request \<^verbatim>\<open>postJSON(url, sub)\<close> sends.\<close>

definition post_request :: "string \<Rightarrow> push_subscription \<Rightarrow> request" where
  "post_request url sub =
     \<lparr>req_url = url, req_method = ''POST'',
      req_headers = [(''Content-Type'', ''application/json'')],
      req_body = JSON_stringify sub\<rparr>"

subsection \<open>Kinds of value\<close>

fun is_string :: "js_value \<Rightarrow> bool" where
  "is_string (JStr s) = True"
| "is_string v = False"

text \<open>Objects in the language's sense: arrays are objects, \<^verbatim>\<open>null\<close> is not.\<close>

fun is_object :: "js_value \<Rightarrow> bool" where
  "is_object (JObj kvs) = True"
| "is_object (JArr xs) = True"
| "is_object v = False"

subsection \<open>Concrete inputs\<close>

text \<open>
  A subscription, server responses, environments and states on which the statements
  below are evaluated.
\<close>

definition example_subscription :: push_subscription where
  "example_subscription =
     \<lparr>endpoint = ''https://push.example/send/1'', p256dh = ''BPub'', auth = ''s3cr3t''\<rparr>"

definition example_response :: "nat \<Rightarrow> string \<Rightarrow> response" where
  "example_response code txt =
     \<lparr>status = code, body_text = txt,
      body_json = Inl (SyntaxError ''Unexpected end of JSON input'')\<rparr>"

definition example_env :: "bool \<Rightarrow> string \<Rightarrow> js_error + response \<Rightarrow> environment" where
  "example_env supported answer served =
     \<lparr>serviceWorker_in_navigator = supported, register_error = None,
      requestPermission_result = Inr answer, getSubscription_error = None,
      subscribe_result = (\<lambda>key. Inr example_subscription),
      fetch_result = (\<lambda>req. served), unsubscribe_error = None\<rparr>"

definition granted_env :: environment where
  "granted_env = example_env True ''granted'' (Inr (example_response 201 ''''))"

definition denied_env :: environment where
  "denied_env = example_env True ''denied'' (Inr (example_response 201 ''''))"

definition unsupported_env :: environment where
  "unsupported_env = example_env False ''granted'' (Inr (example_response 201 ''''))"

definition rejecting_env :: environment where
  "rejecting_env = example_env True ''granted'' (Inr (example_response 400 ''bad subscription''))"

definition failing_env :: environment where
  "failing_env = example_env True ''granted'' (Inr (example_response 500 ''''))"

definition offline_env :: environment where
  "offline_env = example_env True ''granted'' (Inl (TypeError ''Failed to fetch''))"

definition fresh_state :: platform_state where
  "fresh_state = \<lparr>registered = False, subscription = None, calls = []\<rparr>"

definition subscribed_state :: platform_state where
  "subscribed_state =
     \<lparr>registered = True, subscription = Some example_subscription, calls = []\<rparr>"

text \<open>
  The text of a number where no number occurs: the concrete inputs below have none.
\<close>

definition no_number_text :: "real \<Rightarrow> string" where
  "no_number_text n = ''0''"

definition portal_window :: client where
  "portal_window =
     \<lparr>client_url = ''https://drivers.example/portal/jobs'', client_type = Window,
      controlled = False\<rparr>"

definition portal_worker :: client where
  "portal_worker =
     \<lparr>client_url = ''https://drivers.example/portal/worker.js'', client_type = Worker,
      controlled = True\<rparr>"

definition login_window :: client where
  "login_window =
     \<lparr>client_url = ''https://drivers.example/login'', client_type = Window,
      controlled = True\<rparr>"

text \<open>A JSON text needs the double quote, which is written by its code.\<close>

definition quoted :: "string \<Rightarrow> string" where
  "quoted s = [CHR 0x22] @ s @ [CHR 0x22]"

section \<open>Properties of the key decoder\<close>

declare fill_array.simps [simp del]

lemma fill_array_from:
  "i \<le> length rawData \<Longrightarrow> length out = length rawData \<Longrightarrow>
   fill_array rawData i out = take i out @ map of_char (drop i rawData)"
proof (induction rawData i out rule: fill_array.induct)
  case (1 rawData i out)
  show ?case
  proof (cases "i < length rawData")
    case True
    have "fill_array rawData i out = fill_array rawData (i + 1) (out[i := of_char (rawData ! i)])"
      using True by (subst fill_array.simps) simp
    also have "\<dots> = take (i + 1) (out[i := of_char (rawData ! i)]) @ map of_char (drop (i + 1) rawData)"
      using True "1.prems" by (intro "1.IH") auto
    also have "take (i + 1) (out[i := of_char (rawData ! i)]) = take i out @ [of_char (rawData ! i)]"
      using True "1.prems" by (simp add: take_Suc_conv_app_nth)
    also have "(take i out @ [of_char (rawData ! i)]) @ map of_char (drop (i + 1) rawData)
                = take i out @ map of_char (drop i rawData)"
      using True by (simp add: Cons_nth_drop_Suc [symmetric])
    finally show ?thesis .
  next
    case False
    then show ?thesis using "1.prems" by (subst fill_array.simps) simp
  qed
qed

lemma fill_array_map: "fill_array rawData 0 (replicate (length rawData) 0) = map of_char rawData"
  using fill_array_from [of 0 rawData "replicate (length rawData) 0"] by simp

lemma urlBase64ToUint8Array_eq:
  "urlBase64ToUint8Array s =
     base64_decode (from_url (s @ replicate ((4 - length s mod 4) mod 4) (CHR ''='')))"
  by (simp add: urlBase64ToUint8Array_def base64_decode_def from_url_def fill_array_map Let_def
        split: sum.split)

lemma eq_not_base64: "\<not> is_base64_char (CHR ''='')"
  by (simp add: is_base64_char_def base64_alphabet_def)

lemma eq_not_whitespace: "\<not> ascii_whitespace (CHR ''='')"
  by (simp add: ascii_whitespace_def)

lemma remove_trailing_eq_snoc: "remove_trailing_eq (xs @ [CHR ''='']) = xs"
  by (simp add: remove_trailing_eq_def)

lemma remove_trailing_eq_cases:
  "d = remove_trailing_eq d \<or> d = remove_trailing_eq d @ [CHR ''='']"
  by (cases d rule: rev_cases) (auto simp: remove_trailing_eq_def)

lemma strip_padding_decomp:
  "\<exists>i. i \<le> 2 \<and> d = strip_padding d @ replicate i (CHR ''='') \<and> (0 < i \<longrightarrow> length d mod 4 = 0)"
proof (cases "length d mod 4 = 0")
  case False
  then show ?thesis by (intro exI [of _ 0]) (simp add: strip_padding_def)
next
  case True
  define e where "e = remove_trailing_eq d"
  define f where "f = remove_trailing_eq e"
  have sp: "strip_padding d = f" using True by (simp add: strip_padding_def e_def f_def)
  from remove_trailing_eq_cases [of d] remove_trailing_eq_cases [of e]
  consider "d = f" | "d = f @ replicate 1 (CHR ''='')" | "d = f @ replicate 2 (CHR ''='')"
    unfolding e_def [symmetric] f_def [symmetric]
    by (auto simp: numeral_2_eq_2)
  then show ?thesis
  proof cases
    case 1 then show ?thesis using sp by (intro exI [of _ 0]) simp
  next
    case 2 then show ?thesis using sp True by (intro exI [of _ 1]) simp
  next
    case 3 then show ?thesis using sp True by (intro exI [of _ 2]) simp
  qed
qed

lemma atob_Inr_stripped:
  "atob x = Inr r \<Longrightarrow>
     length (strip_padding (filter (\<lambda>c. \<not> ascii_whitespace c) x)) mod 4 \<noteq> 1 \<and>
     list_all is_base64_char (strip_padding (filter (\<lambda>c. \<not> ascii_whitespace c) x))"
  unfolding atob_def Let_def
  by (simp split: if_splits)

lemma atob_Inr_decomp:
  assumes "atob x = Inr r"
  shows "\<exists>body i. filter (\<lambda>c. \<not> ascii_whitespace c) x = body @ replicate i (CHR ''='') \<and> i \<le> 2 \<and>
           list_all is_base64_char body \<and> length body mod 4 \<noteq> 1 \<and>
           (0 < i \<longrightarrow> length (filter (\<lambda>c. \<not> ascii_whitespace c) x) mod 4 = 0)"
proof -
  let ?d = "filter (\<lambda>c. \<not> ascii_whitespace c) x"
  from atob_Inr_stripped [OF assms]
  have ok: "length (strip_padding ?d) mod 4 \<noteq> 1" "list_all is_base64_char (strip_padding ?d)"
    by blast+
  from strip_padding_decomp [of ?d] obtain i where
    i: "i \<le> 2" "?d = strip_padding ?d @ replicate i (CHR ''='')" "0 < i \<longrightarrow> length ?d mod 4 = 0"
    by (elim exE conjE)
  show ?thesis
    using ok i by (intro exI [of _ "strip_padding ?d"] exI [of _ i] conjI)
qed

lemma atob_error: "atob x = Inl e \<Longrightarrow> e = (DOMException ''InvalidCharacterError'')"
  unfolding atob_def Let_def by (simp split: if_splits)

lemma atob_trailing_padding:
  "atob (x @ replicate 3 (CHR ''='')) = Inl (DOMException ''InvalidCharacterError'')"
proof (cases "atob (x @ replicate 3 (CHR ''=''))")
  case (Inl e)
  then show ?thesis using atob_error by simp
next
  case (Inr r)
  from atob_Inr_decomp [OF Inr] obtain body i where
    d: "filter (\<lambda>c. \<not> ascii_whitespace c) (x @ replicate 3 (CHR ''='')) = body @ replicate i (CHR ''='')"
    and i: "i \<le> 2" and body: "list_all is_base64_char body"
    by blast
  have noeq: "CHR ''='' \<notin> set body"
    using body eq_not_base64 by (auto simp: list_all_iff)
  from d have "filter (\<lambda>c. \<not> ascii_whitespace c) x @ replicate 3 (CHR ''='') = body @ replicate i (CHR ''='')"
    by (simp add: eq_not_whitespace)
  then have "rev (replicate 3 (CHR ''='')) @ rev (filter (\<lambda>c. \<not> ascii_whitespace c) x)
               = rev (replicate i (CHR ''='')) @ rev body"
    by (metis rev_append)
  then have "replicate 3 (CHR ''='') @ rev (filter (\<lambda>c. \<not> ascii_whitespace c) x)
               = replicate i (CHR ''='') @ rev body"
    by simp
  then have "drop i (replicate 3 (CHR ''='') @ rev (filter (\<lambda>c. \<not> ascii_whitespace c) x)) = rev body"
    by simp
  moreover have "CHR ''='' \<in> set (drop i (replicate 3 (CHR ''='') @ rev (filter (\<lambda>c. \<not> ascii_whitespace c) x)))"
    using i by (auto simp: set_replicate_conv_if)
  ultimately show ?thesis using noeq by simp
qed


lemma append_replicate_eq:
  "xs @ replicate k c = body @ replicate i c \<Longrightarrow> c \<notin> set body \<Longrightarrow>
   k \<le> i \<and> xs = body @ replicate (i - k) c"
proof (induction body arbitrary: xs)
  case Nil
  then have eq: "xs @ replicate k c = replicate i c" by simp
  then have len: "length xs + k = i" by (metis length_append length_replicate)
  have "xs = take (length xs) (replicate i c)"
    using eq by (metis append_eq_conv_conj)
  then have "xs = replicate (i - k) c" using len by auto
  then show ?case using len by simp
next
  case (Cons b bs)
  then have bc: "b \<noteq> c" by auto
  show ?case
  proof (cases xs)
    case Nil
    with Cons.prems(1) bc show ?thesis by (cases k) auto
  next
    case (Cons x xs')
    with Cons.prems have "x = b" "xs' @ replicate k c = bs @ replicate i c" "c \<notin> set bs"
      by auto
    with Cons.IH [of xs'] Cons show ?thesis by simp
  qed
qed

lemma filter_replace_all:
  "\<not> ascii_whitespace a \<Longrightarrow> \<not> ascii_whitespace b \<Longrightarrow>
   filter (\<lambda>c. \<not> ascii_whitespace c) (replace_all a b xs)
     = replace_all a b (filter (\<lambda>c. \<not> ascii_whitespace c) xs)"
  by (induction xs) (auto simp: replace_all_def)

lemma from_url_map:
  "from_url s = map (\<lambda>c. if c = CHR ''-'' then CHR ''+'' else if c = CHR ''_'' then CHR ''/'' else c) s"
  by (induction s) (auto simp: from_url_def replace_all_def)

lemma filter_from_url:
  "filter (\<lambda>c. \<not> ascii_whitespace c) (from_url xs) = from_url (filter (\<lambda>c. \<not> ascii_whitespace c) xs)"
proof -
  have "\<not> ascii_whitespace (CHR ''-'')" "\<not> ascii_whitespace (CHR ''+'')"
    "\<not> ascii_whitespace (CHR ''_'')" "\<not> ascii_whitespace (CHR ''/'')"
    by (simp_all add: ascii_whitespace_def)
  then show ?thesis by (simp add: from_url_def filter_replace_all)
qed

lemma from_url_append: "from_url (xs @ ys) = from_url xs @ from_url ys"
  by (simp add: from_url_map)

lemma from_url_padding: "from_url (replicate k (CHR ''='')) = replicate k (CHR ''='')"
  by (simp add: from_url_map)

lemma map_eq_replicateD:
  "map f vs = replicate j c \<Longrightarrow> (\<And>x. f x = c \<Longrightarrow> x = c) \<Longrightarrow> vs = replicate j c"
proof (induction vs arbitrary: j)
  case Nil
  then show ?case by simp
next
  case (Cons v vs)
  then show ?case by (cases j) auto
qed

lemma well_formed_keyI:
  assumes "list_all is_base64url_char us" "CHR ''='' \<notin> set us" "length us mod 4 \<noteq> 1"
    "j \<le> (4 - length us mod 4) mod 4"
  shows "well_formed_key (us @ replicate j (CHR ''=''))"
proof -
  let ?P = "\<lambda>c. c \<noteq> CHR ''=''"
  let ?R = "replicate j (CHR ''='')"
  have us: "\<And>x. x \<in> set us \<Longrightarrow> ?P x" using assms(2) by auto
  have "takeWhile ?P ?R = []" by (cases j) simp_all
  then have tw: "takeWhile ?P (us @ ?R) = us"
    using takeWhile_append2 [of us ?P ?R] us by simp
  have "dropWhile ?P ?R = ?R" by (cases j) simp_all
  then have dw: "dropWhile ?P (us @ ?R) = ?R"
    using dropWhile_append2 [of us ?P ?R] us by simp
  show ?thesis
    unfolding well_formed_key_def Let_def tw dw
    using assms by (simp add: list_all_iff)
qed

lemma padding_restored:
  assumes "(n + m) mod 4 = 0" and "m \<le> 3"
  shows "(4 - n mod 4) mod 4 = (m::nat)"
proof -
  define r where "r = n mod 4"
  have r: "r < 4" by (simp add: r_def)
  have "(r + m) mod 4 = 0"
    using assms(1) by (simp add: r_def mod_add_left_eq)
  then obtain q where q: "r + m = 4 * q" by (auto simp: mod_eq_0_iff_dvd elim: dvdE)
  with r assms(2) have "q = 0 \<or> q = 1" by linarith
  then have "(4 - r) mod 4 = m"
  proof
    assume "q = 0"
    with q show ?thesis by simp
  next
    assume "q = 1"
    with q r assms(2) have "4 - r = m" "m < 4" by linarith+
    then show ?thesis by simp
  qed
  then show ?thesis by (simp add: r_def)
qed

lemma accepted_key_well_formed:
  assumes "atob (from_url (s @ replicate k (CHR ''=''))) = Inr r"
  shows "well_formed_key (filter (\<lambda>c. \<not> ascii_whitespace c) s)"
proof -
  let ?s0 = "filter (\<lambda>c. \<not> ascii_whitespace c) s"
  let ?f = "\<lambda>c. if c = CHR ''-'' then CHR ''+'' else if c = CHR ''_'' then CHR ''/'' else c"
  from atob_Inr_decomp [OF assms] obtain body i where
    d: "filter (\<lambda>c. \<not> ascii_whitespace c) (from_url (s @ replicate k (CHR ''=''))) = body @ replicate i (CHR ''='')"
    and i: "i \<le> 2" and body: "list_all is_base64_char body" and len: "length body mod 4 \<noteq> 1"
    and full: "0 < i \<longrightarrow> length (filter (\<lambda>c. \<not> ascii_whitespace c) (from_url (s @ replicate k (CHR ''='')))) mod 4 = 0"
    by (elim exE conjE)
  have noeq: "CHR ''='' \<notin> set body"
    using body eq_not_base64 by (auto simp: list_all_iff)
  have d': "from_url ?s0 @ replicate k (CHR ''='') = body @ replicate i (CHR ''='')"
    using d by (simp add: filter_from_url eq_not_whitespace from_url_append from_url_padding)
  from append_replicate_eq [OF d' noeq]
  have ki: "k \<le> i" and s0: "from_url ?s0 = body @ replicate (i - k) (CHR ''='')" by simp_all
  from s0 obtain us vs where uv: "?s0 = us @ vs" "body = map ?f us" "replicate (i - k) (CHR ''='') = map ?f vs"
    unfolding from_url_map map_eq_append_conv by (elim exE conjE)
  have vs: "vs = replicate (i - k) (CHR ''='')"
    by (rule map_eq_replicateD [of ?f]) (use uv(3) in \<open>auto split: if_splits\<close>)
  have us1: "list_all is_base64url_char us"
    using body unfolding uv(2) by (auto simp: list_all_iff is_base64url_char_def split: if_splits)
  have us2: "CHR ''='' \<notin> set us"
    using noeq unfolding uv(2) by force
  have us3: "length us mod 4 \<noteq> 1" using len by (simp add: uv(2))
  have us4: "i - k \<le> (4 - length us mod 4) mod 4"
  proof (cases "i = 0")
    case True
    then show ?thesis by simp
  next
    case False
    with full d have "(length body + i) mod 4 = 0" by simp
    with i have "(4 - length body mod 4) mod 4 = i" by (intro padding_restored) simp_all
    then show ?thesis by (simp add: uv(2))
  qed
  show ?thesis
    unfolding uv(1) vs by (rule well_formed_keyI [OF us1 us2 us3 us4])
qed

lemma urlBase64ToUint8Array_Inl:
  "urlBase64ToUint8Array s = Inl e \<Longrightarrow> e = (DOMException ''InvalidCharacterError'')"
  unfolding urlBase64ToUint8Array_def Let_def
  by (auto split: sum.splits dest: atob_error)

lemma malformed_key_fails:
  assumes "\<not> well_formed_key (filter (\<lambda>c. \<not> ascii_whitespace c) s)"
  shows "urlBase64ToUint8Array s = Inl (DOMException ''InvalidCharacterError'')"
proof (cases "urlBase64ToUint8Array s")
  case (Inl e)
  then show ?thesis using urlBase64ToUint8Array_Inl by simp
next
  case (Inr bytes)
  then obtain r where "atob (from_url (s @ replicate ((4 - length s mod 4) mod 4) (CHR ''=''))) = Inr r"
    unfolding urlBase64ToUint8Array_def Let_def from_url_def by (auto split: sum.splits)
  from accepted_key_well_formed [OF this] assms show ?thesis by simp
qed

lemma length_to_base64url: "length (to_base64url p) = length p"
  by (simp add: to_base64url_def replace_all_def)

lemma from_url_to_base64url:
  "CHR ''-'' \<notin> set p \<Longrightarrow> CHR ''_'' \<notin> set p \<Longrightarrow> from_url (to_base64url p) = p"
  by (induction p) (auto simp: from_url_def replace_all_def to_base64url_def)

lemma url_key_roundtrip:
  assumes "length (p @ replicate m (CHR ''='')) mod 4 = 0" "m \<le> 3"
    "CHR ''-'' \<notin> set p" "CHR ''_'' \<notin> set p"
  shows "urlBase64ToUint8Array (to_base64url p) = base64_decode (p @ replicate m (CHR ''=''))"
proof -
  have pad: "(4 - length (to_base64url p) mod 4) mod 4 = m"
    using assms(1,2) padding_restored [of "length p" m] by (simp add: length_to_base64url)
  show ?thesis
    by (simp add: urlBase64ToUint8Array_eq pad from_url_append from_url_padding
          from_url_to_base64url assms(3,4))
qed

lemma base64_char_not_whitespace: "is_base64_char c \<Longrightarrow> \<not> ascii_whitespace c"
  by (auto simp: is_base64_char_def base64_alphabet_def ascii_whitespace_def)

lemma base64_char_not_url: "is_base64_char c \<Longrightarrow> c \<noteq> CHR ''-'' \<and> c \<noteq> CHR ''_''"
  by (auto simp: is_base64_char_def base64_alphabet_def)

lemma remove_trailing_eq_id: "CHR ''='' \<notin> set xs \<Longrightarrow> remove_trailing_eq xs = xs"
  by (cases xs rule: rev_cases) (auto simp: remove_trailing_eq_def)

lemma strip_padding_body:
  assumes "length (body @ replicate j (CHR ''='')) mod 4 = 0" "j \<le> 2" "CHR ''='' \<notin> set body"
  shows "strip_padding (body @ replicate j (CHR ''='')) = body"
proof -
  from assms(2) consider "j = 0" | "j = 1" | "j = 2" by linarith
  then have "remove_trailing_eq (remove_trailing_eq (body @ replicate j (CHR ''=''))) = body"
  proof cases
    case 1
    then show ?thesis using assms(3) by (simp add: remove_trailing_eq_id)
  next
    case 2
    then show ?thesis using assms(3) by (simp add: remove_trailing_eq_snoc remove_trailing_eq_id)
  next
    case 3
    have "body @ replicate 2 (CHR ''='') = (body @ [CHR ''='']) @ [CHR ''='']"
      by (simp add: numeral_2_eq_2)
    then show ?thesis using 3 by (simp only: remove_trailing_eq_snoc)
  qed
  then show ?thesis using assms(1) by (simp add: strip_padding_def)
qed

lemma list_all_eq_replicate: "list_all (\<lambda>c. c = x) pad \<Longrightarrow> replicate (length pad) x = pad"
  by (rule replicate_length_same) (simp add: list_all_iff)

lemma valid_base64_decomp:
  assumes "valid_base64 t"
  shows "\<exists>body j. t = body @ replicate j (CHR ''='') \<and> j \<le> 2 \<and> list_all is_base64_char body \<and>
           length t mod 4 = 0"
proof -
  let ?body = "takeWhile (\<lambda>c. c \<noteq> CHR ''='') t"
  let ?pad = "dropWhile (\<lambda>c. c \<noteq> CHR ''='') t"
  from assms have v: "length t mod 4 = 0" "list_all is_base64_char ?body"
    "list_all (\<lambda>c. c = CHR ''='') ?pad" "length ?pad \<le> 2"
    unfolding valid_base64_def Let_def by blast+
  have pad: "replicate (length ?pad) (CHR ''='') = ?pad"
    using v(3) by (rule list_all_eq_replicate)
  have "?body @ ?pad = t" by (rule takeWhile_dropWhile_id)
  then have t: "t = ?body @ replicate (length ?pad) (CHR ''='')"
    by (simp only: pad)
  show ?thesis
    using t v(4) v(2) v(1) by (intro exI [of _ ?body] exI [of _ "length ?pad"] conjI)
qed

lemma atob_valid:
  assumes "valid_base64 t"
  shows "\<exists>r. atob t = Inr r"
proof -
  from valid_base64_decomp [OF assms] obtain body j where
    t: "t = body @ replicate j (CHR ''='')" and j: "j \<le> 2" and body: "list_all is_base64_char body"
    and len: "length t mod 4 = 0"
    by (elim exE conjE)
  have noeq: "CHR ''='' \<notin> set body"
    using body eq_not_base64 by (auto simp: list_all_iff)
  have "\<forall>c\<in>set t. \<not> ascii_whitespace c"
    using body base64_char_not_whitespace eq_not_whitespace by (auto simp: t list_all_iff)
  then have nows: "filter (\<lambda>c. \<not> ascii_whitespace c) t = t" by simp
  have sp: "strip_padding t = body"
    unfolding t by (rule strip_padding_body) (use len j noeq in \<open>simp_all add: t\<close>)
  have "length body mod 4 \<noteq> 1"
  proof
    assume one: "length body mod 4 = 1"
    from len have "(length body + j) mod 4 = 0" by (simp add: t)
    with j have "(4 - length body mod 4) mod 4 = j" by (intro padding_restored) simp_all
    with one j show False by simp
  qed
  then show ?thesis
    unfolding atob_def Let_def nows sp using body by simp
qed

lemma valid_base64_standard_alphabet:
  assumes "valid_base64 t"
  shows "CHR ''-'' \<notin> set t \<and> CHR ''_'' \<notin> set t"
proof -
  from valid_base64_decomp [OF assms] obtain body j where
    t: "t = body @ replicate j (CHR ''='')" and body: "list_all is_base64_char body"
    by (elim exE conjE)
  show ?thesis using body base64_char_not_url by (auto simp: t list_all_iff)
qed

lemma valid_key_decodes:
  assumes "valid_base64 (p @ replicate m (CHR ''=''))" "m \<le> 3"
  shows "\<exists>bytes. urlBase64ToUint8Array (to_base64url p) = Inr bytes"
proof -
  let ?t = "p @ replicate m (CHR ''='')"
  have len: "length ?t mod 4 = 0" using assms(1) by (simp add: valid_base64_def Let_def)
  from valid_base64_standard_alphabet [OF assms(1)]
  have std: "CHR ''-'' \<notin> set p" "CHR ''_'' \<notin> set p" by simp_all
  from atob_valid [OF assms(1)] obtain r where "atob ?t = Inr r" ..
  then have "base64_decode ?t = Inr (map of_char r)" by (simp add: base64_decode_def)
  with url_key_roundtrip [OF len assms(2) std] show ?thesis by simp
qed

lemma padded_length:
  "(n + (4 - n mod 4) mod 4) mod 4 = (0::nat)"
proof -
  define r where "r = n mod 4"
  have "r < 4" by (simp add: r_def)
  then consider "r = 0" | "r = 1" | "r = 2" | "r = 3" by linarith
  then have "(r + (4 - r) mod 4) mod 4 = 0"
    by cases simp_all
  moreover have "(n + (4 - n mod 4) mod 4) mod 4 = (n mod 4 + (4 - n mod 4) mod 4) mod 4"
    by (simp add: mod_add_left_eq)
  ultimately show ?thesis by (simp add: r_def)
qed

lemma valid_base64I:
  assumes "list_all is_base64_char body" "i \<le> 2"
    "length (body @ replicate i (CHR ''='')) mod 4 = 0"
  shows "valid_base64 (body @ replicate i (CHR ''=''))"
proof -
  let ?P = "\<lambda>c. c \<noteq> CHR ''=''"
  let ?R = "replicate i (CHR ''='')"
  have body: "\<And>x. x \<in> set body \<Longrightarrow> ?P x"
    using assms(1) eq_not_base64 by (auto simp: list_all_iff)
  have "takeWhile ?P ?R = []" by (cases i) simp_all
  then have tw: "takeWhile ?P (body @ ?R) = body"
    using takeWhile_append2 [of body ?P ?R] body by simp
  have "dropWhile ?P ?R = ?R" by (cases i) simp_all
  then have dw: "dropWhile ?P (body @ ?R) = ?R"
    using dropWhile_append2 [of body ?P ?R] body by simp
  show ?thesis
    unfolding valid_base64_def Let_def tw dw
    using assms by (simp add: list_all_iff)
qed

lemma from_url_not_whitespace:
  "\<forall>c\<in>set s. \<not> ascii_whitespace c \<Longrightarrow> \<forall>c\<in>set (from_url s). \<not> ascii_whitespace c"
  by (auto simp: from_url_map ascii_whitespace_def)

lemma accepted_key_valid:
  assumes nows: "\<forall>c\<in>set s. \<not> ascii_whitespace c"
    and acc: "urlBase64ToUint8Array s = Inr bytes"
  shows "valid_base64 (from_url (s @ replicate ((4 - length s mod 4) mod 4) (CHR ''='')))"
proof -
  let ?p = "from_url (s @ replicate ((4 - length s mod 4) mod 4) (CHR ''=''))"
  from acc obtain r where r: "atob ?p = Inr r"
    unfolding urlBase64ToUint8Array_def Let_def from_url_def by (auto split: sum.splits)
  have "\<forall>c\<in>set (s @ replicate ((4 - length s mod 4) mod 4) (CHR ''='')). \<not> ascii_whitespace c"
    using nows eq_not_whitespace by auto
  then have "\<forall>c\<in>set ?p. \<not> ascii_whitespace c"
    by (rule from_url_not_whitespace)
  then have same: "filter (\<lambda>c. \<not> ascii_whitespace c) ?p = ?p" by simp
  from atob_Inr_decomp [OF r] obtain body i where
    d: "filter (\<lambda>c. \<not> ascii_whitespace c) ?p = body @ replicate i (CHR ''='')"
    and i: "i \<le> 2" and body: "list_all is_base64_char body"
    by (elim exE conjE)
  have p: "?p = body @ replicate i (CHR ''='')"
    using d by (simp only: same)
  have "length ?p mod 4 = 0"
    by (simp add: from_url_map padded_length)
  then have "length (body @ replicate i (CHR ''='')) mod 4 = 0"
    by (simp only: p)
  from valid_base64I [OF body i this] show ?thesis
    by (simp only: p)
qed

lemma valid_padded_key_decodes:
  assumes "valid_base64 (from_url (s @ replicate ((4 - length s mod 4) mod 4) (CHR ''='')))"
  shows "\<exists>bytes. urlBase64ToUint8Array s = Inr bytes"
proof -
  from atob_valid [OF assms] obtain r where
    "atob (from_url (s @ replicate ((4 - length s mod 4) mod 4) (CHR ''=''))) = Inr r" ..
  then show ?thesis
    by (simp add: urlBase64ToUint8Array_eq base64_decode_def)
qed

lemma whitespace_free_key:
  assumes "\<forall>c\<in>set s. \<not> ascii_whitespace c"
  shows "(\<exists>bytes. urlBase64ToUint8Array s = Inr bytes)
     \<longleftrightarrow> valid_base64 (from_url (s @ replicate ((4 - length s mod 4) mod 4) (CHR ''='')))"
  using accepted_key_valid [OF assms] valid_padded_key_decodes by blast

section \<open>Round trip and failure of the key decoder\<close>

text \<open>
  C6, as the code has it. Take a standard base64 string \<open>t\<close> with correct padding (its
  length a multiple of four, no \<open>-\<close> or \<open>_\<close> in it), remove \<open>m\<close> of its trailing
  \<open>=\<close>, with \<open>m\<close> from 0 to 3, and put \<open>-\<close> for \<open>+\<close> and \<open>_\<close> for \<open>/\<close>. Decoding
  the result with \<^verbatim>\<open>urlBase64ToUint8Array\<close> gives what decoding \<open>t\<close> itself gives,
  and that is a byte array when \<open>t\<close> is valid base64. The function is a function of its
  argument alone. ASCII whitespace in the input is skipped by the platform decoder.
  The function fails on every string that, its whitespace removed, is malformed in its
  characters or its padding; and a string without whitespace decodes exactly when its
  padded form, in the standard alphabet, is valid base64.
\<close>

theorem urlBase64ToUint8Array_roundtrip:
  "(length (p @ replicate m (CHR ''='')) mod 4 = 0 \<and> m \<le> 3 \<and>
      CHR ''-'' \<notin> set p \<and> CHR ''_'' \<notin> set p \<longrightarrow>
        urlBase64ToUint8Array (to_base64url p) = base64_decode (p @ replicate m (CHR ''='')))
   \<and> (valid_base64 (p @ replicate m (CHR ''='')) \<and> m \<le> 3 \<longrightarrow>
        (\<exists>bytes. urlBase64ToUint8Array (to_base64url p) = Inr bytes))
   \<and> (\<not> well_formed_key (filter (\<lambda>c. \<not> ascii_whitespace c) s) \<longrightarrow>
        urlBase64ToUint8Array s = Inl (DOMException ''InvalidCharacterError''))
   \<and> ((\<forall>c\<in>set s. \<not> ascii_whitespace c) \<longrightarrow>
        ((\<exists>bytes. urlBase64ToUint8Array s = Inr bytes) \<longleftrightarrow>
           valid_base64 (from_url (s @ replicate ((4 - length s mod 4) mod 4) (CHR ''='')))))"
proof (intro conjI impI)
  assume "length (p @ replicate m (CHR ''='')) mod 4 = 0 \<and> m \<le> 3 \<and>
      CHR ''-'' \<notin> set p \<and> CHR ''_'' \<notin> set p"
  then show "urlBase64ToUint8Array (to_base64url p) = base64_decode (p @ replicate m (CHR ''=''))"
    by (elim conjE) (rule url_key_roundtrip)
next
  assume "valid_base64 (p @ replicate m (CHR ''='')) \<and> m \<le> 3"
  then show "\<exists>bytes. urlBase64ToUint8Array (to_base64url p) = Inr bytes"
    by (elim conjE) (rule valid_key_decodes)
next
  assume "\<not> well_formed_key (filter (\<lambda>c. \<not> ascii_whitespace c) s)"
  then show "urlBase64ToUint8Array s = Inl (DOMException ''InvalidCharacterError'')"
    by (rule malformed_key_fails)
next
  assume "\<forall>c\<in>set s. \<not> ascii_whitespace c"
  then show "(\<exists>bytes. urlBase64ToUint8Array s = Inr bytes) \<longleftrightarrow>
           valid_base64 (from_url (s @ replicate ((4 - length s mod 4) mod 4) (CHR ''='')))"
    by (rule whitespace_free_key)
qed

theorem urlBase64ToUint8Array_roundtrip_witness:
  "urlBase64ToUint8Array ''-_-_SGVsbG8'' = base64_decode ''+/+/SGVsbG8=''
   \<and> urlBase64ToUint8Array ''-_-_SGVsbG8'' = Inr [251, 255, 191, 72, 101, 108, 108, 111]
   \<and> urlBase64ToUint8Array ''SGVs*G8'' = Inl (DOMException ''InvalidCharacterError'')
   \<and> (\<exists>bytes. urlBase64ToUint8Array ''SGVsbG8'' = Inr bytes)"
proof -
  have h1: "length (''+/+/SGVsbG8'' @ replicate 1 (CHR ''='')) mod 4 = 0 \<and> (1::nat) \<le> 3 \<and>
      CHR ''-'' \<notin> set ''+/+/SGVsbG8'' \<and> CHR ''_'' \<notin> set ''+/+/SGVsbG8''"
    by simp
  have h2: "valid_base64 (''+/+/SGVsbG8'' @ replicate 1 (CHR ''=''))"
    by code_simp
  have h3: "\<not> well_formed_key (filter (\<lambda>c. \<not> ascii_whitespace c) ''SGVs*G8'')"
    by code_simp
  have h4: "\<forall>c\<in>set ''SGVsbG8''. \<not> ascii_whitespace c"
    by (simp add: ascii_whitespace_def)
  have h5: "valid_base64 (from_url (''SGVsbG8'' @ replicate ((4 - length ''SGVsbG8'' mod 4) mod 4) (CHR ''='')))"
    by code_simp
  have u: "to_base64url ''+/+/SGVsbG8'' = ''-_-_SGVsbG8''"
    by code_simp
  have v: "urlBase64ToUint8Array ''-_-_SGVsbG8'' = Inr [251, 255, 191, 72, 101, 108, 108, 111]"
    by code_simp
  have first: "urlBase64ToUint8Array ''-_-_SGVsbG8'' = base64_decode ''+/+/SGVsbG8=''
     \<and> urlBase64ToUint8Array ''SGVs*G8'' = Inl (DOMException ''InvalidCharacterError'')"
    using urlBase64ToUint8Array_roundtrip [of "''+/+/SGVsbG8''" 1 "''SGVs*G8''"] h1 h2 h3
    unfolding u by simp
  have second: "\<exists>bytes. urlBase64ToUint8Array ''SGVsbG8'' = Inr bytes"
    using urlBase64ToUint8Array_roundtrip [of "''+/+/SGVsbG8''" 1 "''SGVsbG8''"] h4 h5
    by blast
  from first v second show ?thesis by simp
qed

text \<open>
  C6 as stated fails on whitespace: a key with a form feed in it is not valid base64
  (the form feed is in neither alphabet, and the key needs no padding), and it decodes
  to the five bytes of the key without the form feed.
\<close>

theorem urlBase64ToUint8Array_roundtrip_counterexample:
  "urlBase64ToUint8Array (''SGVs'' @ [CHR 0x0C] @ ''bG8'') = Inr [72, 101, 108, 108, 111]
   \<and> from_url ((''SGVs'' @ [CHR 0x0C] @ ''bG8'')
        @ replicate ((4 - length (''SGVs'' @ [CHR 0x0C] @ ''bG8'') mod 4) mod 4) (CHR ''=''))
       = ''SGVs'' @ [CHR 0x0C] @ ''bG8''
   \<and> \<not> valid_base64 (''SGVs'' @ [CHR 0x0C] @ ''bG8'')
   \<and> \<not> is_base64url_char (CHR 0x0C)
   \<and> urlBase64ToUint8Array ''SGVsbG8'' = Inr [72, 101, 108, 108, 111]"
  by code_simp

text \<open>
  C9. For every input whose length is one more than a multiple of four the padding rule
  appends three \<open>=\<close>, the platform decoder rejects the padded string, and
  \<^verbatim>\<open>urlBase64ToUint8Array\<close> throws.
\<close>

theorem urlBase64ToUint8Array_length_1_mod_4:
  assumes "length s mod 4 = 1"
  shows "(4 - length s mod 4) mod 4 = 3
    \<and> atob (replace_all (CHR ''_'') (CHR ''/'') (replace_all (CHR ''-'') (CHR ''+'')
          (s @ replicate 3 (CHR ''='')))) = Inl (DOMException ''InvalidCharacterError'')
    \<and> urlBase64ToUint8Array s = Inl (DOMException ''InvalidCharacterError'')"
proof -
  have pad: "(4 - length s mod 4) mod 4 = 3" using assms by simp
  have "from_url (s @ replicate 3 (CHR ''='')) = from_url s @ replicate 3 (CHR ''='')"
    by (simp only: from_url_append from_url_padding)
  then have fail: "atob (from_url (s @ replicate 3 (CHR ''=''))) = Inl (DOMException ''InvalidCharacterError'')"
    by (simp only: atob_trailing_padding)
  then have "urlBase64ToUint8Array s = Inl (DOMException ''InvalidCharacterError'')"
    by (simp add: urlBase64ToUint8Array_eq pad base64_decode_def)
  with pad fail show ?thesis by (simp add: from_url_def)
qed

theorem urlBase64ToUint8Array_length_1_mod_4_witness:
  "length ''SGVsb'' mod 4 = 1
   \<and> urlBase64ToUint8Array ''SGVsb'' = Inl (DOMException ''InvalidCharacterError'')"
proof -
  have h: "length ''SGVsb'' mod 4 = 1" by simp
  from urlBase64ToUint8Array_length_1_mod_4 [OF h] h show ?thesis by simp
qed

section \<open>Properties of the subscription manager\<close>

subsection \<open>Running the functions step by step\<close>

lemma registerSW_unsupported:
  "\<not> serviceWorker_in_navigator env \<Longrightarrow> registerSW env st = (Inr None, st)"
  by (simp add: registerSW_def resolve_def)

lemma registerSW_registered:
  "serviceWorker_in_navigator env \<Longrightarrow> register_error env = None \<Longrightarrow>
   registerSW env st = (Inr (Some (ServiceWorkerRegistration ''/static/sw.js'')),
      st\<lparr>registered := True, calls := calls st @ [Register ''/static/sw.js'']\<rparr>)"
  by (simp add: registerSW_def serviceWorker_register_def logged_def)

lemma postJSON_rejected:
  "fetch_result env (post_request url sub) = Inl e \<Longrightarrow>
   postJSON env url sub st = (Inl e, st\<lparr>calls := calls st @ [Fetch (post_request url sub)]\<rparr>)"
  by (simp add: postJSON_def fetch_def await_def logged_def post_request_def)

lemma postJSON_not_ok:
  "fetch_result env (post_request url sub) = Inr res \<Longrightarrow> \<not> ok res \<Longrightarrow>
   postJSON env url sub st =
     (Inl (Error (if body_text res = [] then ''Request failed'' else body_text res)),
      st\<lparr>calls := calls st @ [Fetch (post_request url sub)]\<rparr>)"
  by (simp add: postJSON_def fetch_def await_def logged_def post_request_def throw_def)

lemma postJSON_ok:
  "fetch_result env (post_request url sub) = Inr res \<Longrightarrow> ok res \<Longrightarrow>
   postJSON env url sub st =
     (Inr (case body_json res of Inl e \<Rightarrow> JObj [] | Inr v \<Rightarrow> v),
      st\<lparr>calls := calls st @ [Fetch (post_request url sub)]\<rparr>)"
  by (simp add: postJSON_def fetch_def await_def logged_def post_request_def resolve_def)

lemma enable_eq:
  "enable env key st =
     (case subscribePush env key st of
        (Inl e, st') \<Rightarrow> (Inl e, st')
      | (Inr sub, st') \<Rightarrow>
          (case postJSON env ''/push/subscribe'' sub st' of
             (Inl e, st'') \<Rightarrow> (Inl e, st'')
           | (Inr v, st'') \<Rightarrow> (Inr True, st'')))"
  by (simp add: enable_def await_def resolve_def split: prod.splits sum.splits)

lemma subscribePush_unsupported:
  "\<not> serviceWorker_in_navigator env \<Longrightarrow>
   subscribePush env key st = (Inl (Error ''Service Worker not supported''), st)"
  by (simp add: subscribePush_def await_def registerSW_unsupported throw_def)

lemma subscribePush_not_granted:
  "serviceWorker_in_navigator env \<Longrightarrow> register_error env = None \<Longrightarrow>
   requestPermission_result env = Inr perm \<Longrightarrow> perm \<noteq> ''granted'' \<Longrightarrow>
   subscribePush env key st = (Inl (Error ''Notifications permission not granted''),
      st\<lparr>registered := True, calls := calls st @ [Register ''/static/sw.js'', RequestPermission]\<rparr>)"
  by (simp add: subscribePush_def await_def registerSW_registered Notification_requestPermission_def
        logged_def throw_def)

lemma disable_unsupported:
  "\<not> serviceWorker_in_navigator env \<Longrightarrow> disable env st = (Inr True, st)"
  by (simp add: disable_def await_def registerSW_unsupported resolve_def)

lemma disable_lookup:
  assumes "serviceWorker_in_navigator env" "register_error env = None"
    "getSubscription_error env = None"
  shows "disable env st =
    (let st' = st\<lparr>registered := True, calls := calls st @ [Register ''/static/sw.js'', GetSubscription]\<rparr>
     in case subscription st of
          None \<Rightarrow> (Inr True, st')
        | Some s \<Rightarrow>
           (case postJSON env ''/push/unsubscribe'' s st' of
              (Inl e, st'') \<Rightarrow> (Inl e, st'')
            | (Inr v, st'') \<Rightarrow>
               (case unsubscribe_error env of
                  Some e \<Rightarrow> (Inl e, st''\<lparr>calls := calls st'' @ [Unsubscribe s]\<rparr>)
                | None \<Rightarrow> (Inr True, st''\<lparr>subscription := None, calls := calls st'' @ [Unsubscribe s]\<rparr>))))"
  using assms
  by (simp add: disable_def await_def registerSW_registered pushManager_getSubscription_def
        sub_unsubscribe_def logged_def resolve_def Let_def
        split: option.splits sum.splits prod.splits)

lemmas manager_defs =
  enable_def disable_def subscribePush_def postJSON_def registerSW_def await_def
  serviceWorker_register_def Notification_requestPermission_def pushManager_getSubscription_def
  pushManager_subscribe_def sub_unsubscribe_def fetch_def logged_def resolve_def throw_def
  new_calls_def post_request_def Let_def

lemmas example_defs =
  granted_env_def denied_env_def unsupported_env_def rejecting_env_def failing_env_def
  offline_env_def example_env_def example_response_def fresh_state_def subscribed_state_def

subsection \<open>\<^verbatim>\<open>enable\<close> reuses the subscription\<close>

lemma enable_existing:
  assumes "subscription st = Some sub"
  shows "subscription (snd (enable env key st)) = Some sub
    \<and> (\<forall>c\<in>set (new_calls st (snd (enable env key st))). \<not> is_Subscribe c)
    \<and> set (posted (new_calls st (snd (enable env key st)))) \<subseteq> {(''/push/subscribe'', JSON_stringify sub)}
    \<and> (fst (enable env key st) = Inr True \<longrightarrow>
          posted (new_calls st (snd (enable env key st))) = [(''/push/subscribe'', JSON_stringify sub)])"
  using assms
  by (auto simp: manager_defs split: option.splits sum.splits if_splits)

lemma enable_posts_current:
  assumes "subscription (snd (enable env key st)) = Some sub"
  shows "set (posted (new_calls st (snd (enable env key st)))) \<subseteq> {(''/push/subscribe'', JSON_stringify sub)}"
  using assms
  by (auto simp: manager_defs split: option.splits sum.splits if_splits)

text \<open>
  C1. Suppose the registration has the active subscription \<open>sub\<close> when \<^verbatim>\<open>enable\<close> is
  called for the second time: it was there before the first call, or the first call
  created it. Then the second call, whatever the key, the user's answer and the
  server's response: leaves \<open>sub\<close> in place, does not call \<^verbatim>\<open>subscribe\<close>, and posts
  nothing but \<open>sub\<close> to \<^verbatim>\<open>/push/subscribe\<close>, exactly once when it succeeds. The first
  call posted nothing but \<open>sub\<close> either, so the two bodies are equal; and when the
  subscription was there before the first call, that call does not call
  \<^verbatim>\<open>subscribe\<close> either.
\<close>

theorem enable_idempotent:
  assumes "subscription st = Some sub \<or> subscription (snd (enable env1 key1 st)) = Some sub"
  shows "subscription (snd (enable env1 key1 st)) = Some sub
    \<and> subscription (snd (enable env2 key2 (snd (enable env1 key1 st)))) = Some sub
    \<and> (\<forall>c\<in>set (new_calls (snd (enable env1 key1 st))
                 (snd (enable env2 key2 (snd (enable env1 key1 st))))). \<not> is_Subscribe c)
    \<and> set (posted (new_calls st (snd (enable env1 key1 st))))
          \<subseteq> {(''/push/subscribe'', JSON_stringify sub)}
    \<and> set (posted (new_calls (snd (enable env1 key1 st))
                 (snd (enable env2 key2 (snd (enable env1 key1 st))))))
          \<subseteq> {(''/push/subscribe'', JSON_stringify sub)}
    \<and> (fst (enable env2 key2 (snd (enable env1 key1 st))) = Inr True \<longrightarrow>
          posted (new_calls (snd (enable env1 key1 st))
                 (snd (enable env2 key2 (snd (enable env1 key1 st)))))
            = [(''/push/subscribe'', JSON_stringify sub)])
    \<and> (subscription st = Some sub \<longrightarrow>
          (\<forall>c\<in>set (new_calls st (snd (enable env1 key1 st))). \<not> is_Subscribe c))"
proof -
  have after: "subscription (snd (enable env1 key1 st)) = Some sub"
    using assms enable_existing [of st sub env1 key1] by blast
  note second = enable_existing [OF after, of env2 key2]
  note first = enable_posts_current [OF after]
  have "subscription st = Some sub \<longrightarrow>
          (\<forall>c\<in>set (new_calls st (snd (enable env1 key1 st))). \<not> is_Subscribe c)"
    using enable_existing [of st sub env1 key1] by blast
  with after second first show ?thesis by blast
qed

theorem enable_idempotent_witness:
  "subscription (snd (enable granted_env ''SGVsbG8'' fresh_state)) = Some example_subscription
   \<and> subscription (snd (enable granted_env ''SGVsbG8'' (snd (enable granted_env ''SGVsbG8'' fresh_state))))
        = Some example_subscription
   \<and> filter is_Subscribe (new_calls (snd (enable granted_env ''SGVsbG8'' fresh_state))
          (snd (enable granted_env ''SGVsbG8'' (snd (enable granted_env ''SGVsbG8'' fresh_state))))) = []
   \<and> posted (new_calls (snd (enable granted_env ''SGVsbG8'' fresh_state))
          (snd (enable granted_env ''SGVsbG8'' (snd (enable granted_env ''SGVsbG8'' fresh_state)))))
        = [(''/push/subscribe'', JSON_stringify example_subscription)]
   \<and> posted (new_calls fresh_state (snd (enable granted_env ''SGVsbG8'' fresh_state)))
        = [(''/push/subscribe'', JSON_stringify example_subscription)]
   \<and> filter is_Subscribe (new_calls subscribed_state
          (snd (enable granted_env ''SGVsbG8'' subscribed_state))) = []
   \<and> posted (new_calls subscribed_state (snd (enable granted_env ''SGVsbG8'' subscribed_state)))
        = posted (new_calls (snd (enable granted_env ''SGVsbG8'' subscribed_state))
            (snd (enable rejecting_env ''SGVsbG8'' (snd (enable granted_env ''SGVsbG8'' subscribed_state)))))"
proof -
  have h: "subscription fresh_state = Some example_subscription
      \<or> subscription (snd (enable granted_env ''SGVsbG8'' fresh_state)) = Some example_subscription"
    by code_simp
  have ok2: "fst (enable granted_env ''SGVsbG8'' (snd (enable granted_env ''SGVsbG8'' fresh_state))) = Inr True"
    by code_simp
  have first: "posted (new_calls fresh_state (snd (enable granted_env ''SGVsbG8'' fresh_state)))
        = [(''/push/subscribe'', JSON_stringify example_subscription)]"
    by code_simp
  have created: "subscription (snd (enable granted_env ''SGVsbG8'' fresh_state)) = Some example_subscription
   \<and> subscription (snd (enable granted_env ''SGVsbG8'' (snd (enable granted_env ''SGVsbG8'' fresh_state))))
        = Some example_subscription
   \<and> filter is_Subscribe (new_calls (snd (enable granted_env ''SGVsbG8'' fresh_state))
          (snd (enable granted_env ''SGVsbG8'' (snd (enable granted_env ''SGVsbG8'' fresh_state))))) = []
   \<and> posted (new_calls (snd (enable granted_env ''SGVsbG8'' fresh_state))
          (snd (enable granted_env ''SGVsbG8'' (snd (enable granted_env ''SGVsbG8'' fresh_state)))))
        = [(''/push/subscribe'', JSON_stringify example_subscription)]"
    using enable_idempotent [where ?env1.0 = granted_env and ?key1.0 = "''SGVsbG8''" and st = fresh_state
      and sub = example_subscription and ?env2.0 = granted_env and ?key2.0 = "''SGVsbG8''", OF h] ok2
    by (simp add: filter_empty_conv)
  have h': "subscription subscribed_state = Some example_subscription
      \<or> subscription (snd (enable granted_env ''SGVsbG8'' subscribed_state)) = Some example_subscription"
    by (simp add: subscribed_state_def)
  have before: "subscription subscribed_state = Some example_subscription"
    by (simp add: subscribed_state_def)
  have p1: "posted (new_calls subscribed_state (snd (enable granted_env ''SGVsbG8'' subscribed_state)))
        = [(''/push/subscribe'', JSON_stringify example_subscription)]"
    by code_simp
  have p2: "posted (new_calls (snd (enable granted_env ''SGVsbG8'' subscribed_state))
            (snd (enable rejecting_env ''SGVsbG8'' (snd (enable granted_env ''SGVsbG8'' subscribed_state)))))
        = [(''/push/subscribe'', JSON_stringify example_subscription)]"
    by code_simp
  have existing: "filter is_Subscribe (new_calls subscribed_state
          (snd (enable granted_env ''SGVsbG8'' subscribed_state))) = []"
    using enable_idempotent [where ?env1.0 = granted_env and ?key1.0 = "''SGVsbG8''"
      and st = subscribed_state and sub = example_subscription, OF h'] before
    by (simp add: filter_empty_conv)
  show ?thesis
    using created first existing p1 p2 by simp
qed

subsection \<open>\<^verbatim>\<open>disable\<close> revokes only after the server has answered\<close>

lemma disable_revokes_after_ack:
  assumes "(\<exists>c\<in>set (new_calls st (snd (disable env st))). is_Unsubscribe c)
         \<or> subscription (snd (disable env st)) \<noteq> subscription st"
  shows "\<exists>s r pre. subscription st = Some s
           \<and> fetch_result env (post_request ''/push/unsubscribe'' s) = Inr r \<and> ok r
           \<and> new_calls st (snd (disable env st))
               = pre @ [Fetch (post_request ''/push/unsubscribe'' s), Unsubscribe s]"
proof (cases "serviceWorker_in_navigator env \<and> register_error env = None \<and> getSubscription_error env = None")
  case False
  then have "subscription (snd (disable env st)) = subscription st
      \<and> (\<forall>c\<in>set (new_calls st (snd (disable env st))). \<not> is_Unsubscribe c)"
    by (auto simp: disable_def await_def registerSW_def serviceWorker_register_def
          pushManager_getSubscription_def logged_def resolve_def new_calls_def
          split: option.splits)
  with assms show ?thesis by blast
next
  case True
  note lookup = disable_lookup [of env st]
  show ?thesis
  proof (cases "subscription st")
    case None
    with True lookup assms show ?thesis by (auto simp: Let_def new_calls_def)
  next
    case (Some s)
    let ?st' = "st\<lparr>registered := True, calls := calls st @ [Register ''/static/sw.js'', GetSubscription]\<rparr>"
    show ?thesis
    proof (cases "fetch_result env (post_request ''/push/unsubscribe'' s)")
      case (Inl e)
      with True lookup Some assms show ?thesis
        by (auto simp: Let_def new_calls_def postJSON_rejected [of env _ s e ?st'])
    next
      case (Inr r)
      show ?thesis
      proof (cases "ok r")
        case False
        with True lookup Some Inr assms show ?thesis
          by (auto simp: Let_def new_calls_def postJSON_not_ok [of env _ s r ?st'])
      next
        case ok: True
        with True lookup Some Inr show ?thesis
          by (auto simp: Let_def new_calls_def postJSON_ok [of env _ s r ?st'] split: option.splits)
      qed
    qed
  qed
qed

text \<open>
  C2. In a state with a subscription \<open>sub\<close>, on a platform whose registration and lookup
  resolve, \<^verbatim>\<open>disable\<close> posts \<open>sub\<close> to \<^verbatim>\<open>/push/unsubscribe\<close> first. On a 2xx
  response it then calls the platform's \<^verbatim>\<open>unsubscribe\<close> and returns true. On any
  other status the error with the response text (or the generic message) comes out of
  \<^verbatim>\<open>disable\<close>, \<^verbatim>\<open>unsubscribe\<close> is not called and the subscription stays; the same
  when the request itself fails. And in every run whatsoever: if \<^verbatim>\<open>unsubscribe\<close> was
  called, or the subscription changed, then the server had answered the POST of that
  subscription with a 2xx status, and that POST is the call just before
  \<^verbatim>\<open>unsubscribe\<close>.
\<close>

theorem disable_server_first:
  "(serviceWorker_in_navigator env \<and> register_error env = None \<and> getSubscription_error env = None
      \<and> subscription st = Some sub
      \<and> fetch_result env (post_request ''/push/unsubscribe'' sub) = Inr res
      \<and> ok res \<and> unsubscribe_error env = None \<longrightarrow>
        disable env st = (Inr True,
             st\<lparr>registered := True, subscription := None,
                calls := calls st @ [Register ''/static/sw.js'', GetSubscription,
                                     Fetch (post_request ''/push/unsubscribe'' sub), Unsubscribe sub]\<rparr>))
   \<and> (serviceWorker_in_navigator env \<and> register_error env = None \<and> getSubscription_error env = None
      \<and> subscription st = Some sub
      \<and> fetch_result env (post_request ''/push/unsubscribe'' sub) = Inr res
      \<and> \<not> ok res \<longrightarrow>
        disable env st = (Inl (Error (if body_text res = [] then ''Request failed'' else body_text res)),
             st\<lparr>registered := True,
                calls := calls st @ [Register ''/static/sw.js'', GetSubscription,
                                     Fetch (post_request ''/push/unsubscribe'' sub)]\<rparr>))
   \<and> (serviceWorker_in_navigator env \<and> register_error env = None \<and> getSubscription_error env = None
      \<and> subscription st = Some sub
      \<and> fetch_result env (post_request ''/push/unsubscribe'' sub) = Inl e \<longrightarrow>
        disable env st = (Inl e,
             st\<lparr>registered := True,
                calls := calls st @ [Register ''/static/sw.js'', GetSubscription,
                                     Fetch (post_request ''/push/unsubscribe'' sub)]\<rparr>))
   \<and> ((\<exists>c\<in>set (new_calls st (snd (disable env st))). is_Unsubscribe c)
         \<or> subscription (snd (disable env st)) \<noteq> subscription st \<longrightarrow>
        (\<exists>s r pre. subscription st = Some s
           \<and> fetch_result env (post_request ''/push/unsubscribe'' s) = Inr r \<and> ok r
           \<and> new_calls st (snd (disable env st))
               = pre @ [Fetch (post_request ''/push/unsubscribe'' s), Unsubscribe s]))"
proof (intro conjI impI)
  let ?st' = "st\<lparr>registered := True, calls := calls st @ [Register ''/static/sw.js'', GetSubscription]\<rparr>"
  assume "serviceWorker_in_navigator env \<and> register_error env = None \<and> getSubscription_error env = None
      \<and> subscription st = Some sub
      \<and> fetch_result env (post_request ''/push/unsubscribe'' sub) = Inr res
      \<and> ok res \<and> unsubscribe_error env = None"
  then show "disable env st = (Inr True,
             st\<lparr>registered := True, subscription := None,
                calls := calls st @ [Register ''/static/sw.js'', GetSubscription,
                                     Fetch (post_request ''/push/unsubscribe'' sub), Unsubscribe sub]\<rparr>)"
    by (simp add: disable_lookup Let_def postJSON_ok [of env _ sub res ?st'])
next
  let ?st' = "st\<lparr>registered := True, calls := calls st @ [Register ''/static/sw.js'', GetSubscription]\<rparr>"
  assume "serviceWorker_in_navigator env \<and> register_error env = None \<and> getSubscription_error env = None
      \<and> subscription st = Some sub
      \<and> fetch_result env (post_request ''/push/unsubscribe'' sub) = Inr res
      \<and> \<not> ok res"
  then show "disable env st = (Inl (Error (if body_text res = [] then ''Request failed'' else body_text res)),
             st\<lparr>registered := True,
                calls := calls st @ [Register ''/static/sw.js'', GetSubscription,
                                     Fetch (post_request ''/push/unsubscribe'' sub)]\<rparr>)"
    by (simp add: disable_lookup Let_def postJSON_not_ok [of env _ sub res ?st'])
next
  let ?st' = "st\<lparr>registered := True, calls := calls st @ [Register ''/static/sw.js'', GetSubscription]\<rparr>"
  assume "serviceWorker_in_navigator env \<and> register_error env = None \<and> getSubscription_error env = None
      \<and> subscription st = Some sub
      \<and> fetch_result env (post_request ''/push/unsubscribe'' sub) = Inl e"
  then show "disable env st = (Inl e,
             st\<lparr>registered := True,
                calls := calls st @ [Register ''/static/sw.js'', GetSubscription,
                                     Fetch (post_request ''/push/unsubscribe'' sub)]\<rparr>)"
    by (simp add: disable_lookup Let_def postJSON_rejected [of env _ sub e ?st'])
next
  assume "(\<exists>c\<in>set (new_calls st (snd (disable env st))). is_Unsubscribe c)
         \<or> subscription (snd (disable env st)) \<noteq> subscription st"
  then show "\<exists>s r pre. subscription st = Some s
           \<and> fetch_result env (post_request ''/push/unsubscribe'' s) = Inr r \<and> ok r
           \<and> new_calls st (snd (disable env st))
               = pre @ [Fetch (post_request ''/push/unsubscribe'' s), Unsubscribe s]"
    by (rule disable_revokes_after_ack)
qed

theorem disable_server_first_witness:
  "disable granted_env subscribed_state
      = (Inr True, \<lparr>registered = True, subscription = None,
           calls = [Register ''/static/sw.js'', GetSubscription,
                    Fetch (post_request ''/push/unsubscribe'' example_subscription),
                    Unsubscribe example_subscription]\<rparr>)
   \<and> disable rejecting_env subscribed_state
      = (Inl (Error ''bad subscription''), \<lparr>registered = True, subscription = Some example_subscription,
           calls = [Register ''/static/sw.js'', GetSubscription,
                    Fetch (post_request ''/push/unsubscribe'' example_subscription)]\<rparr>)
   \<and> disable offline_env subscribed_state
      = (Inl (TypeError ''Failed to fetch''), \<lparr>registered = True, subscription = Some example_subscription,
           calls = [Register ''/static/sw.js'', GetSubscription,
                    Fetch (post_request ''/push/unsubscribe'' example_subscription)]\<rparr>)
   \<and> (\<exists>s r pre. subscription subscribed_state = Some s
        \<and> fetch_result granted_env (post_request ''/push/unsubscribe'' s) = Inr r \<and> ok r
        \<and> new_calls subscribed_state (snd (disable granted_env subscribed_state))
             = pre @ [Fetch (post_request ''/push/unsubscribe'' s), Unsubscribe s])"
proof -
  have h1: "serviceWorker_in_navigator granted_env \<and> register_error granted_env = None
      \<and> getSubscription_error granted_env = None
      \<and> subscription subscribed_state = Some example_subscription
      \<and> fetch_result granted_env (post_request ''/push/unsubscribe'' example_subscription)
           = Inr (example_response 201 '''')
      \<and> ok (example_response 201 '''') \<and> unsubscribe_error granted_env = None"
    by (simp add: example_defs ok_def)
  have h2: "serviceWorker_in_navigator rejecting_env \<and> register_error rejecting_env = None
      \<and> getSubscription_error rejecting_env = None
      \<and> subscription subscribed_state = Some example_subscription
      \<and> fetch_result rejecting_env (post_request ''/push/unsubscribe'' example_subscription)
           = Inr (example_response 400 ''bad subscription'')
      \<and> \<not> ok (example_response 400 ''bad subscription'')"
    by (simp add: example_defs ok_def)
  have h3: "serviceWorker_in_navigator offline_env \<and> register_error offline_env = None
      \<and> getSubscription_error offline_env = None
      \<and> subscription subscribed_state = Some example_subscription
      \<and> fetch_result offline_env (post_request ''/push/unsubscribe'' example_subscription)
           = Inl (TypeError ''Failed to fetch'')"
    by (simp add: example_defs)
  have h4: "subscription (snd (disable granted_env subscribed_state)) \<noteq> subscription subscribed_state"
    by code_simp
  have c1: "disable granted_env subscribed_state
      = (Inr True, subscribed_state\<lparr>registered := True, subscription := None,
           calls := calls subscribed_state @ [Register ''/static/sw.js'', GetSubscription,
                    Fetch (post_request ''/push/unsubscribe'' example_subscription),
                    Unsubscribe example_subscription]\<rparr>)"
    using disable_server_first [where env = granted_env and st = subscribed_state
        and sub = example_subscription and res = "example_response 201 ''''"] h1
    by blast
  have c2: "disable rejecting_env subscribed_state
      = (Inl (Error (if body_text (example_response 400 ''bad subscription'') = [] then ''Request failed''
                     else body_text (example_response 400 ''bad subscription''))),
         subscribed_state\<lparr>registered := True,
           calls := calls subscribed_state @ [Register ''/static/sw.js'', GetSubscription,
                    Fetch (post_request ''/push/unsubscribe'' example_subscription)]\<rparr>)"
    using disable_server_first [where env = rejecting_env and st = subscribed_state
        and sub = example_subscription and res = "example_response 400 ''bad subscription''"] h2
    by blast
  have c3: "disable offline_env subscribed_state
      = (Inl (TypeError ''Failed to fetch''),
         subscribed_state\<lparr>registered := True,
           calls := calls subscribed_state @ [Register ''/static/sw.js'', GetSubscription,
                    Fetch (post_request ''/push/unsubscribe'' example_subscription)]\<rparr>)"
    using disable_server_first [where env = offline_env and st = subscribed_state
        and sub = example_subscription and e = "TypeError ''Failed to fetch''"] h3
    by blast
  have c4: "\<exists>s r pre. subscription subscribed_state = Some s
        \<and> fetch_result granted_env (post_request ''/push/unsubscribe'' s) = Inr r \<and> ok r
        \<and> new_calls subscribed_state (snd (disable granted_env subscribed_state))
             = pre @ [Fetch (post_request ''/push/unsubscribe'' s), Unsubscribe s]"
    using disable_server_first [where env = granted_env and st = subscribed_state] h4
    by blast
  have g1: "disable granted_env subscribed_state
      = (Inr True, \<lparr>registered = True, subscription = None,
           calls = [Register ''/static/sw.js'', GetSubscription,
                    Fetch (post_request ''/push/unsubscribe'' example_subscription),
                    Unsubscribe example_subscription]\<rparr>)"
    unfolding c1 by (simp add: subscribed_state_def)
  have g2: "disable rejecting_env subscribed_state
      = (Inl (Error ''bad subscription''), \<lparr>registered = True, subscription = Some example_subscription,
           calls = [Register ''/static/sw.js'', GetSubscription,
                    Fetch (post_request ''/push/unsubscribe'' example_subscription)]\<rparr>)"
    unfolding c2 by (simp add: subscribed_state_def example_response_def)
  have g3: "disable offline_env subscribed_state
      = (Inl (TypeError ''Failed to fetch''), \<lparr>registered = True, subscription = Some example_subscription,
           calls = [Register ''/static/sw.js'', GetSubscription,
                    Fetch (post_request ''/push/unsubscribe'' example_subscription)]\<rparr>)"
    unfolding c3 by (simp add: subscribed_state_def)
  show ?thesis
    using g1 g2 g3 c4 by (intro conjI)
qed

subsection \<open>Server responses\<close>

text \<open>
  C4. For every response to the POST: a status from 200 to 299 is success, and any
  other status makes \<^verbatim>\<open>postJSON\<close> throw an error whose message is the response text,
  or \<^verbatim>\<open>Request failed\<close> when that text is empty. \<^verbatim>\<open>enable\<close>, once it has its
  subscription, returns true on success and fails with that same error otherwise; a 400
  with a non-empty text gives exactly that text. \<^verbatim>\<open>disable\<close> in a state with a
  subscription does the same (its success also needs the platform's \<^verbatim>\<open>unsubscribe\<close>
  to resolve).
\<close>

theorem postJSON_status_handling:
  "(fetch_result env (post_request url sub) = Inr res \<longrightarrow>
      (ok res \<longleftrightarrow> 200 \<le> status res \<and> status res \<le> 299)
      \<and> (ok res \<longrightarrow> (\<exists>v. fst (postJSON env url sub st) = Inr v))
      \<and> (\<not> ok res \<longrightarrow> fst (postJSON env url sub st)
            = Inl (Error (if body_text res = [] then ''Request failed'' else body_text res))))
   \<and> (subscribePush env key st = (Inr sub, st1)
      \<and> fetch_result env (post_request ''/push/subscribe'' sub) = Inr res \<longrightarrow>
      (ok res \<longrightarrow> fst (enable env key st) = Inr True)
      \<and> (\<not> ok res \<longrightarrow> fst (enable env key st)
            = Inl (Error (if body_text res = [] then ''Request failed'' else body_text res)))
      \<and> (status res = 400 \<and> body_text res \<noteq> [] \<longrightarrow>
            fst (enable env key st) = Inl (Error (body_text res))))
   \<and> (serviceWorker_in_navigator env \<and> register_error env = None \<and> getSubscription_error env = None
      \<and> subscription st = Some sub
      \<and> fetch_result env (post_request ''/push/unsubscribe'' sub) = Inr res \<longrightarrow>
      (ok res \<and> unsubscribe_error env = None \<longrightarrow> fst (disable env st) = Inr True)
      \<and> (\<not> ok res \<longrightarrow> fst (disable env st)
            = Inl (Error (if body_text res = [] then ''Request failed'' else body_text res))))"
proof (intro conjI impI)
  assume "fetch_result env (post_request url sub) = Inr res"
  then show "ok res \<longleftrightarrow> 200 \<le> status res \<and> status res \<le> 299"
    by (simp add: ok_def)
next
  assume "fetch_result env (post_request url sub) = Inr res" "ok res"
  then show "\<exists>v. fst (postJSON env url sub st) = Inr v"
    by (simp add: postJSON_ok)
next
  assume "fetch_result env (post_request url sub) = Inr res" "\<not> ok res"
  then show "fst (postJSON env url sub st)
      = Inl (Error (if body_text res = [] then ''Request failed'' else body_text res))"
    by (simp add: postJSON_not_ok)
next
  assume "subscribePush env key st = (Inr sub, st1)
      \<and> fetch_result env (post_request ''/push/subscribe'' sub) = Inr res" "ok res"
  then show "fst (enable env key st) = Inr True"
    by (simp add: enable_eq postJSON_ok [of env _ sub res st1])
next
  assume "subscribePush env key st = (Inr sub, st1)
      \<and> fetch_result env (post_request ''/push/subscribe'' sub) = Inr res" "\<not> ok res"
  then show "fst (enable env key st)
      = Inl (Error (if body_text res = [] then ''Request failed'' else body_text res))"
    by (simp add: enable_eq postJSON_not_ok [of env _ sub res st1])
next
  assume a: "subscribePush env key st = (Inr sub, st1)
      \<and> fetch_result env (post_request ''/push/subscribe'' sub) = Inr res"
    and b: "status res = 400 \<and> body_text res \<noteq> []"
  from b have "\<not> ok res" by (simp add: ok_def)
  with a b show "fst (enable env key st) = Inl (Error (body_text res))"
    by (simp add: enable_eq postJSON_not_ok [of env _ sub res st1])
next
  let ?st' = "st\<lparr>registered := True, calls := calls st @ [Register ''/static/sw.js'', GetSubscription]\<rparr>"
  assume "serviceWorker_in_navigator env \<and> register_error env = None \<and> getSubscription_error env = None
      \<and> subscription st = Some sub
      \<and> fetch_result env (post_request ''/push/unsubscribe'' sub) = Inr res"
    "ok res \<and> unsubscribe_error env = None"
  then show "fst (disable env st) = Inr True"
    by (simp add: disable_lookup Let_def postJSON_ok [of env _ sub res ?st'])
next
  let ?st' = "st\<lparr>registered := True, calls := calls st @ [Register ''/static/sw.js'', GetSubscription]\<rparr>"
  assume "serviceWorker_in_navigator env \<and> register_error env = None \<and> getSubscription_error env = None
      \<and> subscription st = Some sub
      \<and> fetch_result env (post_request ''/push/unsubscribe'' sub) = Inr res"
    "\<not> ok res"
  then show "fst (disable env st)
      = Inl (Error (if body_text res = [] then ''Request failed'' else body_text res))"
    by (simp add: disable_lookup Let_def postJSON_not_ok [of env _ sub res ?st'])
qed

theorem postJSON_status_handling_witness:
  "fst (enable rejecting_env ''SGVsbG8'' fresh_state) = Inl (Error ''bad subscription'')
   \<and> fst (enable failing_env ''SGVsbG8'' fresh_state)
        = Inl (Error ''Request failed'')
   \<and> fst (enable granted_env ''SGVsbG8'' fresh_state) = Inr True
   \<and> fst (disable granted_env subscribed_state) = Inr True
   \<and> fst (disable rejecting_env subscribed_state) = Inl (Error ''bad subscription'')"
proof -
  let ?st1 = "snd (subscribePush granted_env ''SGVsbG8'' fresh_state)"
    have s1: "subscribePush rejecting_env ''SGVsbG8'' fresh_state = (Inr example_subscription, ?st1)"
    by code_simp
  have s2: "subscribePush failing_env ''SGVsbG8'' fresh_state = (Inr example_subscription, ?st1)"
    by code_simp
  have s3: "subscribePush granted_env ''SGVsbG8'' fresh_state = (Inr example_subscription, ?st1)"
    by code_simp
  have f1: "fetch_result rejecting_env (post_request ''/push/subscribe'' example_subscription)
      = Inr (example_response 400 ''bad subscription'')
      \<and> status (example_response 400 ''bad subscription'') = 400
      \<and> body_text (example_response 400 ''bad subscription'') \<noteq> []"
    by (simp add: example_defs)
  have f2: "fetch_result failing_env (post_request ''/push/subscribe'' example_subscription)
      = Inr (example_response 500 '''') \<and> \<not> ok (example_response 500 '''')"
    by (simp add: example_defs ok_def)
  have f3: "fetch_result granted_env (post_request ''/push/subscribe'' example_subscription)
      = Inr (example_response 201 '''') \<and> ok (example_response 201 '''')"
    by (simp add: example_defs ok_def)
  have d1: "serviceWorker_in_navigator granted_env \<and> register_error granted_env = None
      \<and> getSubscription_error granted_env = None
      \<and> subscription subscribed_state = Some example_subscription
      \<and> fetch_result granted_env (post_request ''/push/unsubscribe'' example_subscription)
           = Inr (example_response 201 '''')
      \<and> ok (example_response 201 '''') \<and> unsubscribe_error granted_env = None"
    by (simp add: example_defs ok_def)
  have d2: "serviceWorker_in_navigator rejecting_env \<and> register_error rejecting_env = None
      \<and> getSubscription_error rejecting_env = None
      \<and> subscription subscribed_state = Some example_subscription
      \<and> fetch_result rejecting_env (post_request ''/push/unsubscribe'' example_subscription)
           = Inr (example_response 400 ''bad subscription'')
      \<and> \<not> ok (example_response 400 ''bad subscription'')"
    by (simp add: example_defs ok_def)
  have c1: "fst (enable rejecting_env ''SGVsbG8'' fresh_state)
      = Inl (Error (body_text (example_response 400 ''bad subscription'')))"
    using postJSON_status_handling [where env = rejecting_env and key = "''SGVsbG8''" and st = fresh_state
        and sub = example_subscription and ?st1.0 = ?st1 and res = "example_response 400 ''bad subscription''"]
      s1 f1 by blast
  have c2: "fst (enable failing_env ''SGVsbG8'' fresh_state)
      = Inl (Error (if body_text (example_response 500 '''') = [] then ''Request failed''
                    else body_text (example_response 500 '''')))"
    using postJSON_status_handling [where env = failing_env and key = "''SGVsbG8''" and st = fresh_state
        and sub = example_subscription and ?st1.0 = ?st1 and res = "example_response 500 ''''"]
      s2 f2 by blast
  have c3: "fst (enable granted_env ''SGVsbG8'' fresh_state) = Inr True"
    using postJSON_status_handling [where env = granted_env and key = "''SGVsbG8''" and st = fresh_state
        and sub = example_subscription and ?st1.0 = ?st1 and res = "example_response 201 ''''"]
      s3 f3 by blast
  have c4: "fst (disable granted_env subscribed_state) = Inr True"
    using postJSON_status_handling [where env = granted_env and st = subscribed_state
        and sub = example_subscription and res = "example_response 201 ''''"]
      d1 by blast
  have c5: "fst (disable rejecting_env subscribed_state)
      = Inl (Error (if body_text (example_response 400 ''bad subscription'') = [] then ''Request failed''
                    else body_text (example_response 400 ''bad subscription'')))"
    using postJSON_status_handling [where env = rejecting_env and st = subscribed_state
        and sub = example_subscription and res = "example_response 400 ''bad subscription''"]
      d2 by blast
  show ?thesis
    unfolding c1 c2 c3 c4 c5 by (simp add: example_response_def)
qed

subsection \<open>Preconditions of \<^verbatim>\<open>enable\<close>\<close>

lemma enable_granted_prefix:
  assumes "serviceWorker_in_navigator env" "register_error env = None"
    "requestPermission_result env = Inr ''granted''"
  shows "take 3 (new_calls st (snd (enable env key st)))
           = [Register ''/static/sw.js'', RequestPermission, GetSubscription]"
  using assms
  by (auto simp: manager_defs split: option.splits sum.splits if_splits)

lemma enable_early_exit:
  assumes "\<not> (serviceWorker_in_navigator env \<and> register_error env = None
       \<and> requestPermission_result env = Inr ''granted'')"
  shows "new_calls st (snd (enable env key st)) = []
       \<or> new_calls st (snd (enable env key st)) = [Register ''/static/sw.js'']
       \<or> new_calls st (snd (enable env key st)) = [Register ''/static/sw.js'', RequestPermission]"
proof (cases "serviceWorker_in_navigator env")
  case False
  then show ?thesis
    by (simp add: enable_eq subscribePush_unsupported new_calls_def)
next
  case True
  show ?thesis
  proof (cases "register_error env")
    case (Some e)
    with True have "subscribePush env key st = (Inl e, st\<lparr>calls := calls st @ [Register ''/static/sw.js'']\<rparr>)"
      by (simp add: subscribePush_def await_def registerSW_def serviceWorker_register_def logged_def)
    then show ?thesis by (simp add: enable_eq new_calls_def)
  next
    case None
    show ?thesis
    proof (cases "requestPermission_result env")
      case (Inl e)
      with True None have "subscribePush env key st
          = (Inl e, st\<lparr>registered := True, calls := calls st @ [Register ''/static/sw.js'', RequestPermission]\<rparr>)"
        by (simp add: subscribePush_def await_def registerSW_registered
              Notification_requestPermission_def logged_def)
      then show ?thesis by (simp add: enable_eq new_calls_def)
    next
      case (Inr perm)
      with assms True None have "perm \<noteq> ''granted''" by simp
      with True None Inr show ?thesis
        by (simp add: enable_eq subscribePush_not_granted new_calls_def)
    qed
  qed
qed

lemma enable_calls_need_preconditions:
  assumes "GetSubscription \<in> set (new_calls st (snd (enable env key st)))
         \<or> filter is_Subscribe (new_calls st (snd (enable env key st))) \<noteq> []
         \<or> posted (new_calls st (snd (enable env key st))) \<noteq> []"
  shows "serviceWorker_in_navigator env \<and> register_error env = None
       \<and> requestPermission_result env = Inr ''granted''"
proof (rule ccontr)
  assume "\<not> (serviceWorker_in_navigator env \<and> register_error env = None
       \<and> requestPermission_result env = Inr ''granted'')"
  from enable_early_exit [OF this, of st key] assms show False
    by (elim disjE) simp_all
qed

text \<open>
  C8. Without worker support \<^verbatim>\<open>registerSW\<close> returns \<^verbatim>\<open>null\<close> and \<^verbatim>\<open>enable\<close>
  throws \<^verbatim>\<open>Service Worker not supported\<close>, having called nothing. When the permission
  request resolves to anything but \<^verbatim>\<open>granted\<close>, \<^verbatim>\<open>enable\<close> throws
  \<^verbatim>\<open>Notifications permission not granted\<close> after the registration and the prompt
  only: no lookup, no \<^verbatim>\<open>subscribe\<close>, no request, and the subscription is untouched.
  When both preconditions hold, \<^verbatim>\<open>enable\<close> goes on to the subscription lookup. And
  in every run, a lookup, a \<^verbatim>\<open>subscribe\<close> or a request means that both preconditions
  held.
\<close>

theorem enable_fails_fast:
  "(\<not> serviceWorker_in_navigator env \<longrightarrow>
       registerSW env st = (Inr None, st)
     \<and> enable env key st = (Inl (Error ''Service Worker not supported''), st))
   \<and> (serviceWorker_in_navigator env \<and> register_error env = None
      \<and> requestPermission_result env = Inr perm \<and> perm \<noteq> ''granted'' \<longrightarrow>
       enable env key st = (Inl (Error ''Notifications permission not granted''),
         st\<lparr>registered := True, calls := calls st @ [Register ''/static/sw.js'', RequestPermission]\<rparr>))
   \<and> (serviceWorker_in_navigator env \<and> register_error env = None
      \<and> requestPermission_result env = Inr ''granted'' \<longrightarrow>
       take 3 (new_calls st (snd (enable env key st)))
         = [Register ''/static/sw.js'', RequestPermission, GetSubscription])
   \<and> (GetSubscription \<in> set (new_calls st (snd (enable env key st)))
         \<or> filter is_Subscribe (new_calls st (snd (enable env key st))) \<noteq> []
         \<or> posted (new_calls st (snd (enable env key st))) \<noteq> [] \<longrightarrow>
       serviceWorker_in_navigator env \<and> register_error env = None
       \<and> requestPermission_result env = Inr ''granted'')"
proof (intro conjI impI)
  assume "\<not> serviceWorker_in_navigator env"
  then show "registerSW env st = (Inr None, st)"
    by (rule registerSW_unsupported)
next
  assume "\<not> serviceWorker_in_navigator env"
  then show "enable env key st = (Inl (Error ''Service Worker not supported''), st)"
    by (simp add: enable_eq subscribePush_unsupported)
next
  assume "serviceWorker_in_navigator env \<and> register_error env = None
      \<and> requestPermission_result env = Inr perm \<and> perm \<noteq> ''granted''"
  then show "enable env key st = (Inl (Error ''Notifications permission not granted''),
         st\<lparr>registered := True, calls := calls st @ [Register ''/static/sw.js'', RequestPermission]\<rparr>)"
    by (simp add: enable_eq subscribePush_not_granted)
next
  assume "serviceWorker_in_navigator env \<and> register_error env = None
      \<and> requestPermission_result env = Inr ''granted''"
  then show "take 3 (new_calls st (snd (enable env key st)))
         = [Register ''/static/sw.js'', RequestPermission, GetSubscription]"
    by (simp add: enable_granted_prefix)
next
  assume a: "GetSubscription \<in> set (new_calls st (snd (enable env key st)))
         \<or> filter is_Subscribe (new_calls st (snd (enable env key st))) \<noteq> []
         \<or> posted (new_calls st (snd (enable env key st))) \<noteq> []"
  from enable_calls_need_preconditions [OF a]
  show "serviceWorker_in_navigator env" "register_error env = None"
    "requestPermission_result env = Inr ''granted''"
    by simp_all
qed

theorem enable_fails_fast_witness:
  "registerSW unsupported_env fresh_state = (Inr None, fresh_state)
   \<and> enable unsupported_env ''SGVsbG8'' fresh_state
        = (Inl (Error ''Service Worker not supported''), fresh_state)
   \<and> enable denied_env ''SGVsbG8'' fresh_state
        = (Inl (Error ''Notifications permission not granted''),
           \<lparr>registered = True, subscription = None,
            calls = [Register ''/static/sw.js'', RequestPermission]\<rparr>)
   \<and> take 3 (new_calls fresh_state (snd (enable granted_env ''SGVsbG8'' fresh_state)))
        = [Register ''/static/sw.js'', RequestPermission, GetSubscription]"
proof -
  have h1: "\<not> serviceWorker_in_navigator unsupported_env"
    by (simp add: example_defs)
  have h2: "serviceWorker_in_navigator denied_env \<and> register_error denied_env = None
      \<and> requestPermission_result denied_env = Inr ''denied'' \<and> ''denied'' \<noteq> ''granted''"
    by (simp add: example_defs)
  have h3: "serviceWorker_in_navigator granted_env \<and> register_error granted_env = None
      \<and> requestPermission_result granted_env = Inr ''granted''"
    by (simp add: example_defs)
  have c1: "registerSW unsupported_env fresh_state = (Inr None, fresh_state)
     \<and> enable unsupported_env ''SGVsbG8'' fresh_state
        = (Inl (Error ''Service Worker not supported''), fresh_state)"
    using enable_fails_fast [where env = unsupported_env and st = fresh_state and key = "''SGVsbG8''"] h1
    by blast
  have c2: "enable denied_env ''SGVsbG8'' fresh_state
        = (Inl (Error ''Notifications permission not granted''),
           fresh_state\<lparr>registered := True,
             calls := calls fresh_state @ [Register ''/static/sw.js'', RequestPermission]\<rparr>)"
    using enable_fails_fast [where env = denied_env and st = fresh_state and key = "''SGVsbG8''"
        and perm = "''denied''"] h2
    by blast
  have c3: "take 3 (new_calls fresh_state (snd (enable granted_env ''SGVsbG8'' fresh_state)))
        = [Register ''/static/sw.js'', RequestPermission, GetSubscription]"
    using enable_fails_fast [where env = granted_env and st = fresh_state and key = "''SGVsbG8''"] h3
    by blast
  show ?thesis
    using c1 c3 unfolding c2 by (simp add: fresh_state_def)
qed

subsection \<open>\<^verbatim>\<open>disable\<close> where the worker was never registered\<close>

lemma disable_no_subscription:
  assumes "subscription st = None"
  shows "posted (new_calls st (snd (disable env st))) = []
       \<and> subscription (snd (disable env st)) = None
       \<and> (\<forall>c\<in>set (new_calls st (snd (disable env st))). c = Register ''/static/sw.js'' \<or> c = GetSubscription)"
  using assms
  by (auto simp: disable_def await_def registerSW_def serviceWorker_register_def
        pushManager_getSubscription_def logged_def resolve_def new_calls_def
        split: option.splits)

text \<open>
  C7, as the code has it. In a state where the worker was never registered (so that
  there is no subscription), \<^verbatim>\<open>disable\<close> sends no request and leaves the subscription
  absent. On a platform without worker support it returns true and changes nothing at
  all. On a platform with worker support it registers the worker and looks the
  subscription up, and when both resolve it returns true; the registration and these
  two calls are all it changes.
\<close>

theorem disable_without_registration:
  "(\<not> serviceWorker_in_navigator env \<longrightarrow> disable env st = (Inr True, st))
   \<and> (serviceWorker_in_navigator env \<and> register_error env = None \<and> getSubscription_error env = None
      \<and> \<not> registered st \<and> subscription st = None \<longrightarrow>
        disable env st = (Inr True,
          st\<lparr>registered := True, calls := calls st @ [Register ''/static/sw.js'', GetSubscription]\<rparr>))
   \<and> (\<not> registered st \<and> subscription st = None \<longrightarrow>
        posted (new_calls st (snd (disable env st))) = []
      \<and> subscription (snd (disable env st)) = None)"
proof (intro conjI impI)
  assume "\<not> serviceWorker_in_navigator env"
  then show "disable env st = (Inr True, st)" by (rule disable_unsupported)
next
  assume "serviceWorker_in_navigator env \<and> register_error env = None \<and> getSubscription_error env = None
      \<and> \<not> registered st \<and> subscription st = None"
  then show "disable env st = (Inr True,
          st\<lparr>registered := True, calls := calls st @ [Register ''/static/sw.js'', GetSubscription]\<rparr>)"
    by (simp add: disable_lookup Let_def)
next
  assume "\<not> registered st \<and> subscription st = None"
  then show "posted (new_calls st (snd (disable env st))) = []"
    using disable_no_subscription [of st env] by simp
next
  assume "\<not> registered st \<and> subscription st = None"
  then show "subscription (snd (disable env st)) = None"
    using disable_no_subscription [of st env] by simp
qed

theorem disable_without_registration_witness:
  "disable unsupported_env fresh_state = (Inr True, fresh_state)
   \<and> disable granted_env fresh_state
       = (Inr True, \<lparr>registered = True, subscription = None,
                     calls = [Register ''/static/sw.js'', GetSubscription]\<rparr>)
   \<and> posted (new_calls fresh_state (snd (disable offline_env fresh_state))) = []
   \<and> subscription (snd (disable offline_env fresh_state)) = None"
proof -
  have h1: "\<not> serviceWorker_in_navigator unsupported_env"
    by (simp add: example_defs)
  have h2: "serviceWorker_in_navigator granted_env \<and> register_error granted_env = None
      \<and> getSubscription_error granted_env = None
      \<and> \<not> registered fresh_state \<and> subscription fresh_state = None"
    by (simp add: example_defs)
  have h3: "\<not> registered fresh_state \<and> subscription fresh_state = None"
    by (simp add: example_defs)
  have c1: "disable unsupported_env fresh_state = (Inr True, fresh_state)"
    using disable_without_registration [where env = unsupported_env and st = fresh_state] h1 by blast
  have c2: "disable granted_env fresh_state = (Inr True,
          fresh_state\<lparr>registered := True,
            calls := calls fresh_state @ [Register ''/static/sw.js'', GetSubscription]\<rparr>)"
    using disable_without_registration [where env = granted_env and st = fresh_state] h2 by blast
  have c3: "posted (new_calls fresh_state (snd (disable offline_env fresh_state))) = []
      \<and> subscription (snd (disable offline_env fresh_state)) = None"
    using disable_without_registration [where env = offline_env and st = fresh_state] h3 by blast
  show ?thesis
    using c1 c3 unfolding c2 by (simp add: fresh_state_def)
qed

text \<open>
  C7 as stated fails: on a platform with worker support, \<^verbatim>\<open>disable\<close> in the state
  where nothing was ever registered returns true but leaves the worker registered.
\<close>

theorem disable_without_registration_counterexample:
  "\<not> registered fresh_state
   \<and> subscription fresh_state = None
   \<and> serviceWorker_in_navigator granted_env
   \<and> disable granted_env fresh_state
       = (Inr True, \<lparr>registered = True, subscription = None,
                     calls = [Register ''/static/sw.js'', GetSubscription]\<rparr>)
   \<and> \<lparr>registered = True, subscription = None,
       calls = [Register ''/static/sw.js'', GetSubscription]\<rparr> \<noteq> fresh_state"
  by (simp add: disable_lookup granted_env_def example_env_def fresh_state_def Let_def)

section \<open>Properties of the service worker\<close>

subsection \<open>The push handler\<close>

text \<open>
  What holds of every push event: when the payload is absent or is not JSON, the
  handler calls \<^verbatim>\<open>showNotification\<close> with the default title and the payload's text
  (or the empty string) as body; and it reaches that call unless the payload parses
  to \<^verbatim>\<open>null\<close>.
\<close>

lemma on_push_parse_failure:
  assumes "event_data_json event = Inl e"
  shows "on_push event =
     Inr \<lparr>n_title = JStr ''M&N Driver Portal'',
          n_body = JStr (case event_data event of Some d \<Rightarrow> text_of d | None \<Rightarrow> ''''),
          n_icon = ''/static/logo.png'', n_badge = ''/static/logo.png'', n_data = JObj []\<rparr>"
  using assms by (simp add: on_push_def js_or_def split: option.splits)

lemma on_push_total:
  assumes "event_data_json event \<noteq> Inr JNull" "event_data_json event \<noteq> Inr JUndefined"
  shows "\<exists>n. on_push event = Inr n"
proof (cases "event_data_json event")
  case (Inl e)
  then show ?thesis by (simp add: on_push_parse_failure)
next
  case (Inr v)
  with assms show ?thesis
    by (cases v) (simp_all add: on_push_def)
qed

text \<open>
  C3 fails at one payload. The JSON text \<^verbatim>\<open>null\<close> parses without an error, so the
  \<^verbatim>\<open>catch\<close> branch is not taken, and reading \<^verbatim>\<open>data.title\<close> from \<^verbatim>\<open>null\<close>
  throws outside the \<^verbatim>\<open>try\<close>: the handler throws a \<^verbatim>\<open>TypeError\<close> and shows
  nothing.
\<close>

theorem on_push_null_payload:
  "on_push \<lparr>event_data = Some \<lparr>text_of = ''null'', json_of = Inr JNull\<rparr>\<rparr>
     = Inl (TypeError ''Cannot read properties of null'')"
  by (simp add: on_push_def event_data_json_def)

text \<open>
  C10, as the code has it. For every payload that parses to a JSON object: a title,
  body or data that is absent or falsy is replaced by the default title, the empty
  string and the empty object; a truthy one is passed on as it is, whatever its type.
  So the title given to \<^verbatim>\<open>showNotification\<close> is never falsy, in particular never the
  empty string, and it is a string when the payload's title is a string or falsy; the
  body is a string when the payload's body is a string or falsy; the data is an object
  when the payload's data is an object or falsy.
\<close>

theorem on_push_defaults:
  assumes "event_data event = Some d" and "json_of d = Inr (JObj kvs)"
    and "get_prop (JObj kvs) ''title'' = Inr t"
    and "get_prop (JObj kvs) ''body'' = Inr b"
    and "get_prop (JObj kvs) ''data'' = Inr x"
  shows "\<exists>n. on_push event = Inr n
    \<and> n_title n = (if truthy t then t else JStr ''M&N Driver Portal'')
    \<and> n_body n = (if truthy b then b else JStr '''')
    \<and> n_data n = (if truthy x then x else JObj [])
    \<and> truthy (n_title n) \<and> n_title n \<noteq> JStr ''''
    \<and> (is_string t \<or> \<not> truthy t \<longrightarrow> is_string (n_title n))
    \<and> (is_string b \<or> \<not> truthy b \<longrightarrow> is_string (n_body n))
    \<and> (is_object x \<or> \<not> truthy x \<longrightarrow> is_object (n_data n))"
proof -
  have ev: "event_data_json event = Inr (JObj kvs)"
    using assms(1,2) by (simp add: event_data_json_def)
  have run: "on_push event =
     Inr \<lparr>n_title = js_or t (JStr ''M&N Driver Portal''), n_body = js_or b (JStr ''''),
          n_icon = ''/static/logo.png'', n_badge = ''/static/logo.png'',
          n_data = js_or x (JObj [])\<rparr>"
    using assms(3-5) unfolding on_push_def ev Let_def by simp
  show ?thesis
    unfolding run by (auto simp: js_or_def)
qed

theorem on_push_defaults_witness:
  "on_push \<lparr>event_data = Some \<lparr>text_of = ''{'' @ quoted ''title'' @ '':'' @ quoted '''' @ ''}'',
        json_of = Inr (JObj [(''title'', JStr '''')])\<rparr>\<rparr>
     = Inr \<lparr>n_title = JStr ''M&N Driver Portal'', n_body = JStr '''',
            n_icon = ''/static/logo.png'', n_badge = ''/static/logo.png'', n_data = JObj []\<rparr>"
proof -
  let ?d = "\<lparr>text_of = ''{'' @ quoted ''title'' @ '':'' @ quoted '''' @ ''}'',
        json_of = Inr (JObj [(''title'', JStr '''')])\<rparr>"
  have h: "event_data \<lparr>event_data = Some ?d\<rparr> = Some ?d"
    "json_of ?d = Inr (JObj [(''title'', JStr '''')])"
    "get_prop (JObj [(''title'', JStr '''')]) ''title'' = Inr (JStr '''')"
    "get_prop (JObj [(''title'', JStr '''')]) ''body'' = Inr JUndefined"
    "get_prop (JObj [(''title'', JStr '''')]) ''data'' = Inr JUndefined"
    by simp_all
  from on_push_defaults [OF h] obtain n where
    n: "on_push \<lparr>event_data = Some ?d\<rparr> = Inr n"
      "n_title n = (if truthy (JStr '''') then JStr '''' else JStr ''M&N Driver Portal'')"
      "n_body n = (if truthy JUndefined then JUndefined else JStr '''')"
      "n_data n = (if truthy JUndefined then JUndefined else JObj [])"
    by blast
  have icons: "n_icon n = ''/static/logo.png''" "n_badge n = ''/static/logo.png''"
    using n(1) by (auto simp: on_push_def event_data_json_def)
  show ?thesis
    unfolding n(1) using n(2-4) icons by (cases n) simp
qed

text \<open>
  C10 as stated fails: a payload whose body is \<^verbatim>\<open>true\<close> and whose data is a string
  gives a notification whose body is not a string and whose data is not an object.
\<close>

theorem on_push_defaults_counterexample:
  "on_push \<lparr>event_data = Some
       \<lparr>text_of = ''{'' @ quoted ''body'' @ '':true,'' @ quoted ''data'' @ '':'' @ quoted ''x'' @ ''}'',
        json_of = Inr (JObj [(''body'', JBool True), (''data'', JStr ''x'')])\<rparr>\<rparr>
     = Inr \<lparr>n_title = JStr ''M&N Driver Portal'', n_body = JBool True,
            n_icon = ''/static/logo.png'', n_badge = ''/static/logo.png'', n_data = JStr ''x''\<rparr>
   \<and> \<not> is_string (JBool True) \<and> \<not> is_object (JStr ''x'')"
  by (simp add: on_push_def event_data_json_def js_or_def)

subsection \<open>The notificationclick handler\<close>

lemma String_includes_iff: "String_includes s u \<longleftrightarrow> (\<exists>pre post. s = pre @ u @ post)"
proof (induction s)
  case Nil
  then show ?case by auto
next
  case (Cons c cs)
  show ?case
  proof
    assume "String_includes (c # cs) u"
    then consider "take (length u) (c # cs) = u" | "String_includes cs u" by auto
    then show "\<exists>pre post. c # cs = pre @ u @ post"
    proof cases
      case 1
      then have "c # cs = [] @ u @ drop (length u) (c # cs)"
        by (metis append_Nil append_take_drop_id)
      then show ?thesis by blast
    next
      case 2
      with Cons.IH obtain pre post where "cs = pre @ u @ post" by blast
      then have "c # cs = (c # pre) @ u @ post" by simp
      then show ?thesis by blast
    qed
  next
    assume "\<exists>pre post. c # cs = pre @ u @ post"
    then obtain pre post where eq: "c # cs = pre @ u @ post" by blast
    show "String_includes (c # cs) u"
    proof (cases pre)
      case Nil
      with eq have "take (length u) (c # cs) = u" by simp
      then show ?thesis by simp
    next
      case (Cons p pre')
      with eq have "cs = pre' @ u @ post" by simp
      with Cons.IH have "String_includes cs u" by blast
      then show ?thesis by simp
    qed
  qed
qed

lemma click_url_cases:
  "click_url data =
     Inr (case (if truthy data then get_prop data ''url'' else Inr JUndefined) of
            Inr u \<Rightarrow> if truthy u then u else JStr ''/portal''
          | Inl e \<Rightarrow> JStr ''/portal'')"
  by (cases data) (auto simp: click_url_def)

lemma click_url_truthy: "click_url data = Inr url \<Longrightarrow> truthy url"
  by (cases data) (auto simp: click_url_def split: if_splits)

lemma first_match_converted:
  "ToString number_text url = Inr u \<Longrightarrow>
   first_match number_text url (matchAll open_clients Window True)
     = Inr (List.find (\<lambda>c. client_type c = Window \<and> String_includes (client_url c) u) open_clients)"
  by (induction open_clients) (auto simp: matchAll_def has_focus_def)

lemma first_match_throws:
  "ToString number_text url = Inl e \<Longrightarrow>
   first_match number_text url (matchAll open_clients Window True)
     = (if \<exists>c\<in>set open_clients. client_type c = Window then Inl e else Inr None)"
  by (induction open_clients) (auto simp: matchAll_def)

lemma on_notificationclick_converted:
  assumes "click_url data = Inr url" and "ToString number_text url = Inr u"
  shows "on_notificationclick number_text open_clients has_openWindow data =
     (CloseNotification #
        (case List.find (\<lambda>c. client_type c = Window \<and> String_includes (client_url c) u) open_clients of
           Some c \<Rightarrow> [Focus c]
         | None \<Rightarrow> if has_openWindow then [OpenWindow url] else []), None)"
  using assms
  by (simp add: on_notificationclick_def first_match_converted split: option.splits)

lemma on_notificationclick_throws:
  assumes "click_url data = Inr url" and "ToString number_text url = Inl e"
  shows "on_notificationclick number_text open_clients has_openWindow data =
     (if \<exists>c\<in>set open_clients. client_type c = Window then ([CloseNotification], Some e)
      else (CloseNotification # (if has_openWindow then [OpenWindow url] else []), None))"
  using assms
  by (simp add: on_notificationclick_def first_match_throws)

lemma on_notificationclick_closes_first:
  "\<exists>rest. fst (on_notificationclick number_text open_clients has_openWindow data)
     = CloseNotification # rest"
  by (auto simp: on_notificationclick_def split: sum.splits option.splits)

text \<open>
  C5, as the code has it. For every click the notification is closed first. The target
  is \<^verbatim>\<open>data.url\<close> when the notification has data and that value is truthy, and
  \<^verbatim>\<open>/portal\<close> otherwise (also when \<^verbatim>\<open>data.url\<close> is there but empty or otherwise
  falsy). A target that is a string converts to itself. Whenever the target converts to
  a string: among all open clients of type window, controlled or not, the first whose
  URL contains that string as a substring is focused, and then no window is opened;
  when there is none, \<^verbatim>\<open>openWindow\<close> is called with the target if the platform has
  it, and nothing more is done if it has not. When the conversion throws (an object
  with a \<^verbatim>\<open>toString\<close> property of its own) and a window client is open, the callback
  ends with that error after the notification was closed, and nothing is focused or
  opened; with no window client open nothing is converted and \<^verbatim>\<open>openWindow\<close> is
  called with the target as before.
\<close>

theorem notificationclick_routing:
  "\<exists>url.
      click_url data = Inr url
    \<and> (truthy data \<longrightarrow> (\<exists>u. get_prop data ''url'' = Inr u \<and> url = (if truthy u then u else JStr ''/portal'')))
    \<and> (\<not> truthy data \<longrightarrow> url = JStr ''/portal'')
    \<and> (\<exists>rest. fst (on_notificationclick number_text open_clients has_openWindow data)
           = CloseNotification # rest)
    \<and> (\<forall>s. url = JStr s \<longrightarrow> ToString number_text url = Inr s)
    \<and> (\<forall>u. ToString number_text url = Inr u \<longrightarrow>
          on_notificationclick number_text open_clients has_openWindow data =
            (CloseNotification #
               (case List.find (\<lambda>c. client_type c = Window \<and> String_includes (client_url c) u) open_clients of
                  Some c \<Rightarrow> [Focus c]
                | None \<Rightarrow> if has_openWindow then [OpenWindow url] else []), None))
    \<and> (\<forall>u. ToString number_text url = Inr u \<longrightarrow>
          (\<exists>c\<in>set open_clients. client_type c = Window \<and> (\<exists>pre post. client_url c = pre @ u @ post)) \<longrightarrow>
          (\<exists>c\<in>set open_clients. client_type c = Window \<and> (\<exists>pre post. client_url c = pre @ u @ post)
             \<and> on_notificationclick number_text open_clients has_openWindow data
                 = ([CloseNotification, Focus c], None)))
    \<and> (\<forall>u. ToString number_text url = Inr u \<longrightarrow>
          \<not> (\<exists>c\<in>set open_clients. client_type c = Window \<and> (\<exists>pre post. client_url c = pre @ u @ post)) \<longrightarrow>
          on_notificationclick number_text open_clients has_openWindow data
            = (CloseNotification # (if has_openWindow then [OpenWindow url] else []), None))
    \<and> (\<forall>e. ToString number_text url = Inl e \<longrightarrow> (\<exists>c\<in>set open_clients. client_type c = Window) \<longrightarrow>
          on_notificationclick number_text open_clients has_openWindow data
            = ([CloseNotification], Some e))
    \<and> (\<forall>e. ToString number_text url = Inl e \<longrightarrow> \<not> (\<exists>c\<in>set open_clients. client_type c = Window) \<longrightarrow>
          on_notificationclick number_text open_clients has_openWindow data
            = (CloseNotification # (if has_openWindow then [OpenWindow url] else []), None))"
proof -
  obtain url where url: "click_url data = Inr url"
    using click_url_cases [of data] by blast
  let ?P = "\<lambda>u c. client_type c = Window \<and> String_includes (client_url c) u"
  have c2: "truthy data \<longrightarrow> (\<exists>u. get_prop data ''url'' = Inr u \<and> url = (if truthy u then u else JStr ''/portal''))"
    using url by (cases data) (auto simp: click_url_def split: if_splits)
  have c3: "\<not> truthy data \<longrightarrow> url = JStr ''/portal''"
    using url by (auto simp: click_url_def split: if_splits)
  have c4: "\<exists>rest. fst (on_notificationclick number_text open_clients has_openWindow data)
           = CloseNotification # rest"
    by (rule on_notificationclick_closes_first)
  have c5: "\<forall>s. url = JStr s \<longrightarrow> ToString number_text url = Inr s"
    by simp
  have c6: "\<forall>u. ToString number_text url = Inr u \<longrightarrow>
          on_notificationclick number_text open_clients has_openWindow data =
            (CloseNotification #
               (case List.find (\<lambda>c. client_type c = Window \<and> String_includes (client_url c) u) open_clients of
                  Some c \<Rightarrow> [Focus c]
                | None \<Rightarrow> if has_openWindow then [OpenWindow url] else []), None)"
    using on_notificationclick_converted [OF url, of number_text _ open_clients has_openWindow]
    by blast
  have c7: "\<forall>u. ToString number_text url = Inr u \<longrightarrow>
          (\<exists>c\<in>set open_clients. client_type c = Window \<and> (\<exists>pre post. client_url c = pre @ u @ post)) \<longrightarrow>
          (\<exists>c\<in>set open_clients. client_type c = Window \<and> (\<exists>pre post. client_url c = pre @ u @ post)
             \<and> on_notificationclick number_text open_clients has_openWindow data
                 = ([CloseNotification, Focus c], None))"
  proof (intro allI impI)
    fix u
    assume u: "ToString number_text url = Inr u" and "(\<exists>c\<in>set open_clients. client_type c = Window \<and> (\<exists>pre post. client_url c = pre @ u @ post))"
    then have "\<exists>c\<in>set open_clients. ?P u c"
      unfolding String_includes_iff by blast
    then have "List.find (?P u) open_clients \<noteq> None" by (auto simp: find_None_iff)
    then obtain c where f: "List.find (?P u) open_clients = Some c" by blast
    then have "c \<in> set open_clients \<and> ?P u c"
      by (metis (mono_tags, lifting) find_Some_iff nth_mem)
    moreover have "on_notificationclick number_text open_clients has_openWindow data = ([CloseNotification, Focus c], None)"
      using on_notificationclick_converted [OF url u, of open_clients has_openWindow] f by simp
    ultimately show "\<exists>c\<in>set open_clients. client_type c = Window \<and> (\<exists>pre post. client_url c = pre @ u @ post)
             \<and> on_notificationclick number_text open_clients has_openWindow data
                 = ([CloseNotification, Focus c], None)"
      unfolding String_includes_iff by blast
  qed
  have c8: "\<forall>u. ToString number_text url = Inr u \<longrightarrow>
          \<not> (\<exists>c\<in>set open_clients. client_type c = Window \<and> (\<exists>pre post. client_url c = pre @ u @ post)) \<longrightarrow>
          on_notificationclick number_text open_clients has_openWindow data
            = (CloseNotification # (if has_openWindow then [OpenWindow url] else []), None)"
  proof (intro allI impI)
    fix u
    assume u: "ToString number_text url = Inr u" and "\<not> (\<exists>c\<in>set open_clients. client_type c = Window \<and> (\<exists>pre post. client_url c = pre @ u @ post))"
    then have "\<not> (\<exists>c\<in>set open_clients. ?P u c)"
      unfolding String_includes_iff by blast
    then have "List.find (?P u) open_clients = None" by (auto simp: find_None_iff)
    then show "on_notificationclick number_text open_clients has_openWindow data
            = (CloseNotification # (if has_openWindow then [OpenWindow url] else []), None)"
      using on_notificationclick_converted [OF url u, of open_clients has_openWindow] by simp
  qed
  have c9: "\<forall>e. ToString number_text url = Inl e \<longrightarrow> (\<exists>c\<in>set open_clients. client_type c = Window) \<longrightarrow>
          on_notificationclick number_text open_clients has_openWindow data
            = ([CloseNotification], Some e)"
    using on_notificationclick_throws [OF url, of number_text _ open_clients has_openWindow]
    by simp
  have c10: "\<forall>e. ToString number_text url = Inl e \<longrightarrow> \<not> (\<exists>c\<in>set open_clients. client_type c = Window) \<longrightarrow>
          on_notificationclick number_text open_clients has_openWindow data
            = (CloseNotification # (if has_openWindow then [OpenWindow url] else []), None)"
    using on_notificationclick_throws [OF url, of number_text _ open_clients has_openWindow]
    by simp
  from url c2 c3 c4 c5 c6 c7 c8 c9 c10 show ?thesis
    by (intro exI [of _ url] conjI)
qed

theorem notificationclick_routing_witness:
  "on_notificationclick no_number_text [portal_worker, login_window, portal_window] True
       (JObj [(''url'', JStr ''/portal'')])
     = ([CloseNotification, Focus portal_window], None)
   \<and> on_notificationclick no_number_text [portal_worker, login_window] True JNull
     = ([CloseNotification, OpenWindow (JStr ''/portal'')], None)
   \<and> on_notificationclick no_number_text [portal_worker, login_window] True
       (JObj [(''url'', JObj [(''toString'', JNum 0)])])
     = ([CloseNotification], Some (TypeError ''Cannot convert object to primitive value''))"
proof -
  let ?cs = "[portal_worker, login_window, portal_window]"
  let ?ds = "[portal_worker, login_window]"
  let ?data = "JObj [(''url'', JStr ''/portal'')]"
  let ?bad = "JObj [(''url'', JObj [(''toString'', JNum 0)])]"
  let ?P = "\<lambda>c. client_type c = Window \<and> String_includes (client_url c) ''/portal''"
  from notificationclick_routing [of ?data no_number_text ?cs True]
  obtain v where
    a: "truthy ?data \<longrightarrow> (\<exists>u. get_prop ?data ''url'' = Inr u \<and> v = (if truthy u then u else JStr ''/portal''))"
    and b: "\<forall>u. ToString no_number_text v = Inr u \<longrightarrow>
          on_notificationclick no_number_text ?cs True ?data =
            (CloseNotification #
               (case List.find (\<lambda>c. client_type c = Window \<and> String_includes (client_url c) u) ?cs of
                  Some c \<Rightarrow> [Focus c]
                | None \<Rightarrow> if True then [OpenWindow v] else []), None)"
    by (elim exE conjE) (rule that, assumption+)
  from a have v: "v = JStr ''/portal''" by simp
  have found: "List.find ?P ?cs = Some portal_window"
    by (simp add: portal_worker_def login_window_def portal_window_def)
  from b v have "on_notificationclick no_number_text ?cs True ?data =
      (CloseNotification # (case List.find ?P ?cs of Some c \<Rightarrow> [Focus c]
                            | None \<Rightarrow> if True then [OpenWindow v] else []), None)"
    by simp
  then have first: "on_notificationclick no_number_text ?cs True ?data
      = ([CloseNotification, Focus portal_window], None)"
    unfolding found by simp
  from notificationclick_routing [of JNull no_number_text ?ds True]
  obtain v' where
    a': "\<not> truthy JNull \<longrightarrow> v' = JStr ''/portal''"
    and b': "\<forall>u. ToString no_number_text v' = Inr u \<longrightarrow>
          on_notificationclick no_number_text ?ds True JNull =
            (CloseNotification #
               (case List.find (\<lambda>c. client_type c = Window \<and> String_includes (client_url c) u) ?ds of
                  Some c \<Rightarrow> [Focus c]
                | None \<Rightarrow> if True then [OpenWindow v'] else []), None)"
    by (elim exE conjE) (rule that, assumption+)
  from a' have v': "v' = JStr ''/portal''" by simp
  have none: "List.find ?P ?ds = None"
    by (simp add: portal_worker_def login_window_def)
  from b' v' have "on_notificationclick no_number_text ?ds True JNull =
      (CloseNotification # (case List.find ?P ?ds of Some c \<Rightarrow> [Focus c]
                            | None \<Rightarrow> if True then [OpenWindow v'] else []), None)"
    by simp
  then have second: "on_notificationclick no_number_text ?ds True JNull
      = ([CloseNotification, OpenWindow (JStr ''/portal'')], None)"
    unfolding none using v' by simp
  from notificationclick_routing [of ?bad no_number_text ?ds True]
  obtain v'' where
    a'': "truthy ?bad \<longrightarrow> (\<exists>u. get_prop ?bad ''url'' = Inr u \<and> v'' = (if truthy u then u else JStr ''/portal''))"
    and c'': "\<forall>e. ToString no_number_text v'' = Inl e \<longrightarrow> (\<exists>c\<in>set ?ds. client_type c = Window) \<longrightarrow>
          on_notificationclick no_number_text ?ds True ?bad
            = ([CloseNotification], Some e)"
    by (elim exE conjE) (rule that, assumption+)
  from a'' have v'': "v'' = JObj [(''toString'', JNum 0)]" by simp
  have throws: "ToString no_number_text v''
      = Inl (TypeError ''Cannot convert object to primitive value'')"
    unfolding v'' by simp
  have window: "\<exists>c\<in>set ?ds. client_type c = Window"
    by (simp add: login_window_def)
  from c'' throws window have third: "on_notificationclick no_number_text ?ds True ?bad
      = ([CloseNotification], Some (TypeError ''Cannot convert object to primitive value''))"
    by blast
  from first second third show ?thesis by (intro conjI)
qed

text \<open>
  C5 as stated fails where \<^verbatim>\<open>data.url\<close> is present and empty: the target is then
  \<^verbatim>\<open>/portal\<close>, not \<^verbatim>\<open>data.url\<close>, and the window on the portal is focused although
  the URL of the first window contains the empty string.
\<close>

theorem notificationclick_routing_counterexample:
  "get_prop (JObj [(''url'', JStr '''')]) ''url'' = Inr (JStr '''')
   \<and> click_url (JObj [(''url'', JStr '''')]) = Inr (JStr ''/portal'')
   \<and> on_notificationclick no_number_text [login_window, portal_window] True
        (JObj [(''url'', JStr '''')])
       = ([CloseNotification, Focus portal_window], None)
   \<and> String_includes (client_url login_window) ''''"
  by (simp add: click_url_def on_notificationclick_def matchAll_def has_focus_def
        login_window_def portal_window_def)

end
